theory Spec2Isabelle
  imports Complex_Main
begin

section \<open>Data model (types.ts)\<close>

text \<open>
  The TypeScript \<^verbatim>\<open>number\<close> is modelled by \<^typ>\<open>real\<close>: exact arithmetic, no NaN and no
  infinities. Record fields carry a prefix where the source's field name (\<^verbatim>\<open>x\<close>, \<^verbatim>\<open>y\<close>,
  \<^verbatim>\<open>width\<close>, \<^verbatim>\<open>id\<close>) would otherwise capture a variable name.
\<close>

record SignatureElement =
  sig_id :: string
  dataUrl :: string
  pageIndex :: int
  sig_x :: real
  sig_y :: real
  sig_width :: real
  aspectRatio :: real
  rotation :: real
  opacity :: real

record StrokePoint =
  pt_x :: real
  pt_y :: real

record Stroke =
  points :: "StrokePoint list"
  color :: string
  stroke_width :: real

type_synonym PageDrawings = "int \<rightharpoonup> Stroke list"

section \<open>hexToRgb (App.tsx, lines 16-23)\<close>

record Rgb =
  rgb_r :: real
  rgb_g :: real
  rgb_b :: real

text \<open>The character class \<^verbatim>\<open>[a-f\d]\<close> under the \<^verbatim>\<open>i\<close> flag.\<close>

definition isHexDigit :: "char \<Rightarrow> bool" where
  "isHexDigit c = (c \<in> set ''0123456789abcdefABCDEF'')"

text \<open>The value \<^verbatim>\<open>parseInt\<close> gives one hexadecimal digit.\<close>

definition hexDigitValue :: "char \<Rightarrow> nat" where
  "hexDigitValue c =
     (case map_of (zip ''0123456789abcdefABCDEF''
                       [0, 1, 2, 3, 4, 5, 6, 7, 8, 9, 10, 11, 12, 13, 14, 15, 10, 11, 12, 13, 14, 15]) c of
        Some v \<Rightarrow> v
      | None \<Rightarrow> 0)"

text \<open>\<^verbatim>\<open>parseInt(s, 16)\<close> on a string of hexadecimal digits (the only strings
  the capture groups can hold): most significant digit first.\<close>

definition parseInt16 :: "string \<Rightarrow> nat" where
  "parseInt16 s = foldl (\<lambda>acc c. 16 * acc + hexDigitValue c) 0 s"

text \<open>The optional \<^verbatim>\<open>#\<close> at the start of the pattern.\<close>

definition optHash :: "string \<Rightarrow> string" where
  "optHash s = (case s of [] \<Rightarrow> [] | c # rest \<Rightarrow> if c = CHR ''#'' then rest else s)"

text \<open>One capture group \<^verbatim>\<open>([a-f\d]{2})\<close>: the two characters and the rest of the input.\<close>

fun hexPair :: "string \<Rightarrow> (string \<times> string) option" where
  "hexPair (a # b # rest) = (if isHexDigit a \<and> isHexDigit b then Some ([a, b], rest) else None)"
| "hexPair _ = None"

text \<open>
  \<^verbatim>\<open>/^#?([a-f\d]{2})([a-f\d]{2})([a-f\d]{2})$/i.exec(hex)\<close>: the three captures, or
  \<open>None\<close> for \<^verbatim>\<open>null\<close>. Backtracking over \<^verbatim>\<open>#?\<close> adds no match: a \<^verbatim>\<open>#\<close> left
  unconsumed is not in the class of the first group.
\<close>

definition hexRegexExec :: "string \<Rightarrow> (string \<times> string \<times> string) option" where
  "hexRegexExec hex =
     (case hexPair (optHash hex) of
        None \<Rightarrow> None
      | Some (g1, s1) \<Rightarrow>
          (case hexPair s1 of
             None \<Rightarrow> None
           | Some (g2, s2) \<Rightarrow>
               (case hexPair s2 of
                  None \<Rightarrow> None
                | Some (g3, s3) \<Rightarrow> if s3 = [] then Some (g1, g2, g3) else None)))"

definition hexToRgb :: "string \<Rightarrow> Rgb" where
  "hexToRgb hex =
     (case hexRegexExec hex of
        Some (g1, g2, g3) \<Rightarrow>
          \<lparr>rgb_r = real (parseInt16 g1) / 255,
           rgb_g = real (parseInt16 g2) / 255,
           rgb_b = real (parseInt16 g3) / 255\<rparr>
      | None \<Rightarrow> \<lparr>rgb_r = 0, rgb_g = 0, rgb_b = 0\<rparr>)"



section \<open>Application state (App.tsx, lines 63-124)\<close>

record HistoryEntry =
  sigs :: "SignatureElement list"
  draws :: PageDrawings

record History =
  past :: "HistoryEntry list"
  future :: "HistoryEntry list"

record SnapTarget =
  t_x :: real
  t_y :: real
  t_width :: real
  t_height :: real

datatype Orientation = Vertical | Horizontal

record SnapLine =
  orientation :: Orientation
  position :: real

record ResizeMode =
  isResizing :: bool
  handle :: "string option"
  startPos :: "real \<times> real"
  startSig :: "SignatureElement option"

record RotateMode =
  isRotating :: bool
  startAngle :: real
  initialRotation :: real
  center :: "(real \<times> real) option"
  sigId :: "string option"

text \<open>
  The React state and refs the handlers read and write. \<open>signatures\<close> stands for both
  the state variable and \<^verbatim>\<open>signaturesRef.current\<close>, which an effect keeps equal to it.
\<close>

record AppState =
  signatures :: "SignatureElement list"
  drawings :: PageDrawings
  history :: History
  historyStartRef :: "HistoryEntry option"
  selectedSigId :: "string option"
  pageNum :: int
  isFreeDrawMode :: bool
  aspectRatioLocked :: bool
  resizeMode :: ResizeMode
  rotateMode :: RotateMode
  snapTargets :: "SnapTarget list"
  snapLines :: "SnapLine list"

section \<open>History helpers (App.tsx, lines 132-164)\<close>

definition saveToHistory :: "AppState \<Rightarrow> AppState" where
  "saveToHistory st =
     st\<lparr>history :=
          \<lparr>past = past (history st) @ [\<lparr>sigs = signatures st, draws = drawings st\<rparr>],
           future = []\<rparr>\<rparr>"

definition undo :: "AppState \<Rightarrow> AppState" where
  "undo st =
     (if length (past (history st)) = 0 then st
      else
        let previous = last (past (history st));
            newPast = butlast (past (history st))
        in st\<lparr>history :=
                 \<lparr>past = newPast,
                  future = \<lparr>sigs = signatures st, draws = drawings st\<rparr> # future (history st)\<rparr>,
               signatures := sigs previous,
               drawings := draws previous\<rparr>)"

definition redo :: "AppState \<Rightarrow> AppState" where
  "redo st =
     (if length (future (history st)) = 0 then st
      else
        let next = hd (future (history st));
            newFuture = tl (future (history st))
        in st\<lparr>history :=
                 \<lparr>past = past (history st) @ [\<lparr>sigs = signatures st, draws = drawings st\<rparr>],
                  future = newFuture\<rparr>,
               signatures := sigs next,
               drawings := draws next\<rparr>)"

section \<open>Mutations that record first (App.tsx, lines 403-461 and 822-854)\<close>

text \<open>\<^verbatim>\<open>if (!editingSigId) return\<close>: \<^verbatim>\<open>null\<close> and the empty string both return.\<close>

definition handleSaveStyle :: "string option \<Rightarrow> string \<Rightarrow> real \<Rightarrow> AppState \<Rightarrow> AppState" where
  "handleSaveStyle editingSigId url op st =
     (case editingSigId of
        None \<Rightarrow> st
      | Some eid \<Rightarrow>
          if eid = [] then st
          else
            (let st1 = saveToHistory st
             in st1\<lparr>signatures :=
                      map (\<lambda>s. if sig_id s = eid then s\<lparr>dataUrl := url, opacity := op\<rparr> else s)
                        (signatures st1)\<rparr>))"

definition handleAddStroke :: "Stroke \<Rightarrow> AppState \<Rightarrow> AppState" where
  "handleAddStroke stroke st =
     (let st1 = saveToHistory st;
          prev = drawings st1;
          pageStrokes = (case prev (pageNum st - 1) of None \<Rightarrow> [] | Some ss \<Rightarrow> ss)
      in st1\<lparr>drawings := prev(pageNum st - 1 \<mapsto> pageStrokes @ [stroke])\<rparr>)"

definition handleClearPage :: "AppState \<Rightarrow> AppState" where
  "handleClearPage st =
     (let st1 = saveToHistory st
      in st1\<lparr>drawings := (drawings st1)(pageNum st - 1 \<mapsto> [])\<rparr>)"

definition deleteSignature :: "string \<Rightarrow> AppState \<Rightarrow> AppState" where
  "deleteSignature i st =
     (let st1 = saveToHistory st;
          st2 = st1\<lparr>signatures := filter (\<lambda>s. sig_id s \<noteq> i) (signatures st1)\<rparr>
      in if selectedSigId st = Some i then st2\<lparr>selectedSigId := None\<rparr> else st2)"

text \<open>\<open>newId\<close> is the value \<^verbatim>\<open>crypto.randomUUID()\<close> returns.\<close>

definition handleDuplicateSignature :: "string \<Rightarrow> string \<Rightarrow> AppState \<Rightarrow> AppState" where
  "handleDuplicateSignature newId i st =
     (case find (\<lambda>s. sig_id s = i) (signatures st) of
        None \<Rightarrow> st
      | Some originalSig \<Rightarrow>
          (let st1 = saveToHistory st;
               newSig = originalSig\<lparr>sig_id := newId,
                                    sig_x := min (sig_x originalSig + 2) 90,
                                    sig_y := min (sig_y originalSig + 2) 90\<rparr>
           in st1\<lparr>signatures := signatures st1 @ [newSig], selectedSigId := Some newId\<rparr>))"

section \<open>Dragging with snapping (App.tsx, lines 464-619)\<close>

text \<open>What the closures \<^verbatim>\<open>moveHandler\<close> and \<^verbatim>\<open>upHandler\<close> capture at pointer-down.\<close>

record DragCtx =
  drag_id :: string
  drag_sig :: SignatureElement
  drag_startX :: real
  drag_startY :: real
  drag_canvasW :: real
  drag_canvasH :: real
  drag_pageNum :: int
  drag_snapTargets :: "SnapTarget list"

definition SNAP_THRESHOLD :: real where
  "SNAP_THRESHOLD = 0.5"

text \<open>
  \<open>canvasRect\<close> is \<open>None\<close> when the container or the canvas is not mounted, otherwise
  the width and height of \<^verbatim>\<open>getBoundingClientRect()\<close>.
\<close>

definition handleDragStart ::
  "(real \<times> real) option \<Rightarrow> real \<times> real \<Rightarrow> string \<Rightarrow> AppState \<Rightarrow> AppState \<times> DragCtx option" where
  "handleDragStart canvasRect start i st =
     (if isFreeDrawMode st then (st, None)
      else if isResizing (resizeMode st) \<or> isRotating (rotateMode st) then (st, None)
      else
        let st1 = st\<lparr>selectedSigId := Some i,
                     historyStartRef := Some \<lparr>sigs = signatures st, draws = drawings st\<rparr>\<rparr>
        in case canvasRect of
             None \<Rightarrow> (st1, None)
           | Some (cw, ch) \<Rightarrow>
               (case find (\<lambda>s. sig_id s = i) (signatures st) of
                  None \<Rightarrow> (st1, None)
                | Some sig \<Rightarrow>
                    (st1, Some \<lparr>drag_id = i, drag_sig = sig,
                                drag_startX = fst start, drag_startY = snd start,
                                drag_canvasW = cw, drag_canvasH = ch,
                                drag_pageNum = pageNum st,
                                drag_snapTargets = snapTargets st\<rparr>)))"

text \<open>The snap points: page edges and centre, then the other signatures of the page,
  then the form fields.\<close>

definition vSnapPoints :: "DragCtx \<Rightarrow> SignatureElement list \<Rightarrow> real list" where
  "vSnapPoints ctx ss =
     [0, 50, 100]
     @ concat (map (\<lambda>s. [sig_x s, sig_x s + sig_width s / 2, sig_x s + sig_width s])
               (filter (\<lambda>s. \<not> (sig_id s = drag_id ctx \<or> pageIndex s \<noteq> drag_pageNum ctx - 1)) ss))
     @ concat (map (\<lambda>t. [t_x t, t_x t + t_width t / 2, t_x t + t_width t]) (drag_snapTargets ctx))"

definition hSnapPoints :: "DragCtx \<Rightarrow> SignatureElement list \<Rightarrow> real list" where
  "hSnapPoints ctx ss =
     (let canvasRatio = drag_canvasW ctx / drag_canvasH ctx
      in [0, 50, 100]
         @ concat (map (\<lambda>s. let sHeight = sig_width s * canvasRatio / aspectRatio s
                             in [sig_y s, sig_y s + sHeight / 2, sig_y s + sHeight])
                   (filter (\<lambda>s. \<not> (sig_id s = drag_id ctx \<or> pageIndex s \<noteq> drag_pageNum ctx - 1)) ss))
         @ concat (map (\<lambda>t. [t_y t, t_y t + t_height t / 2, t_y t + t_height t]) (drag_snapTargets ctx)))"

text \<open>The variables the two snapping loops update:
  \<^verbatim>\<open>minDiffX\<close>, \<^verbatim>\<open>nextX\<close>, \<^verbatim>\<open>activeLines\<close>, \<^verbatim>\<open>snappedX\<close> (and the same for Y).\<close>

record SnapAcc =
  minDiff :: real
  nextPos :: real
  activeLines :: "SnapLine list"
  snapped :: bool

text \<open>The inner loop \<^verbatim>\<open>for (const target of vSnapPoints)\<close> for one edge.\<close>

fun snapTargetLoop :: "Orientation \<Rightarrow> real \<Rightarrow> real \<Rightarrow> real list \<Rightarrow> SnapAcc \<Rightarrow> SnapAcc" where
  "snapTargetLoop ori currentEdgePos offset [] acc = acc"
| "snapTargetLoop ori currentEdgePos offset (target # targets) acc =
     (let diff = \<bar>currentEdgePos - target\<bar>
      in if diff < minDiff acc
         then snapTargetLoop ori currentEdgePos offset targets
                (acc\<lparr>minDiff := diff,
                     nextPos := target - offset,
                     activeLines := activeLines acc @ [\<lparr>orientation = ori, position = target\<rparr>],
                     snapped := True\<rparr>)
         else snapTargetLoop ori currentEdgePos offset targets acc)"

text \<open>The outer loop \<^verbatim>\<open>for (const edge of myEdgesX)\<close> with its \<^verbatim>\<open>break\<close>.\<close>

fun snapEdgeLoop :: "Orientation \<Rightarrow> real list \<Rightarrow> real list \<Rightarrow> SnapAcc \<Rightarrow> SnapAcc" where
  "snapEdgeLoop ori [] targets acc = acc"
| "snapEdgeLoop ori (offset # offsets) targets acc =
     (let currentEdgePos = nextPos acc + offset;
          acc1 = snapTargetLoop ori currentEdgePos offset targets acc
      in if snapped acc1 then acc1 else snapEdgeLoop ori offsets targets acc1)"

text \<open>One axis: the proposed position, the lines so far, the element's extent on the
  axis and the snap points.\<close>

definition snapAxis :: "Orientation \<Rightarrow> real \<Rightarrow> SnapLine list \<Rightarrow> real \<Rightarrow> real list \<Rightarrow> SnapAcc" where
  "snapAxis ori proposed ls extent targets =
     snapEdgeLoop ori [0, extent / 2, extent] targets
       \<lparr>minDiff = SNAP_THRESHOLD, nextPos = proposed, activeLines = ls, snapped = False\<rparr>"

text \<open>The element's height in percent of the canvas height, and the clamped proposed
  position, as \<^verbatim>\<open>moveHandler\<close> computes them from the captured element.\<close>

definition dragHPct :: "DragCtx \<Rightarrow> real" where
  "dragHPct ctx =
     (let sig = drag_sig ctx;
          canvasRatio = drag_canvasW ctx / drag_canvasH ctx
      in sig_width sig * canvasRatio / aspectRatio sig)"

definition proposedX :: "DragCtx \<Rightarrow> real \<times> real \<Rightarrow> real" where
  "proposedX ctx cur =
     (let sig = drag_sig ctx;
          deltaXPixels = fst cur - drag_startX ctx;
          deltaXPct = (deltaXPixels / drag_canvasW ctx) * 100
      in min (max (sig_x sig + deltaXPct) 0) (100 - sig_width sig))"

definition proposedY :: "DragCtx \<Rightarrow> real \<times> real \<Rightarrow> real" where
  "proposedY ctx cur =
     (let sig = drag_sig ctx;
          deltaYPixels = snd cur - drag_startY ctx;
          deltaYPct = (deltaYPixels / drag_canvasH ctx) * 100
      in min (max (sig_y sig + deltaYPct) 0) (100 - dragHPct ctx))"

text \<open>Step 2 (snap X) and step 3 (snap Y, which appends to the same \<^verbatim>\<open>activeLines\<close>).\<close>

definition dragSnapX :: "DragCtx \<Rightarrow> real \<times> real \<Rightarrow> SignatureElement list \<Rightarrow> SnapAcc" where
  "dragSnapX ctx cur ss =
     snapAxis Vertical (proposedX ctx cur) [] (sig_width (drag_sig ctx)) (vSnapPoints ctx ss)"

definition dragSnapY :: "DragCtx \<Rightarrow> real \<times> real \<Rightarrow> SignatureElement list \<Rightarrow> SnapAcc" where
  "dragSnapY ctx cur ss =
     snapAxis Horizontal (proposedY ctx cur) (activeLines (dragSnapX ctx cur ss)) (dragHPct ctx)
       (hSnapPoints ctx ss)"

definition moveHandler :: "DragCtx \<Rightarrow> real \<times> real \<Rightarrow> AppState \<Rightarrow> AppState" where
  "moveHandler ctx cur st =
     (let hPct = dragHPct ctx;
          nextX = nextPos (dragSnapX ctx cur (signatures st));
          nextY = nextPos (dragSnapY ctx cur (signatures st))
      in st\<lparr>snapLines := activeLines (dragSnapY ctx cur (signatures st)),
            signatures :=
              map (\<lambda>s. if sig_id s = drag_id ctx
                        then s\<lparr>sig_x := min (max nextX 0) (100 - sig_width s),
                               sig_y := min (max nextY 0) (100 - hPct)\<rparr>
                        else s)
                (signatures st)\<rparr>)"

text \<open>
  The commit at pointer-up, written three times in the source (\<^verbatim>\<open>upHandler\<close>,
  \<^verbatim>\<open>handleUp\<close>, \<^verbatim>\<open>handleRotateUp\<close>). \<open>stringify\<close> is \<^verbatim>\<open>JSON.stringify\<close> on the
  signature array, a built-in of the host taken as a parameter.
\<close>

definition commitHistory :: "(SignatureElement list \<Rightarrow> 'j) \<Rightarrow> AppState \<Rightarrow> History" where
  "commitHistory stringify st =
     (case historyStartRef st of
        None \<Rightarrow> history st
      | Some startState \<Rightarrow>
          (let hasChanged = (stringify (sigs startState) \<noteq> stringify (signatures st))
           in if hasChanged
              then \<lparr>past = past (history st) @ [\<lparr>sigs = sigs startState, draws = draws startState\<rparr>],
                    future = []\<rparr>
              else history st))"

definition upHandler :: "(SignatureElement list \<Rightarrow> 'j) \<Rightarrow> AppState \<Rightarrow> AppState" where
  "upHandler stringify st = st\<lparr>snapLines := [], history := commitHistory stringify st\<rparr>"

text \<open>A whole drag gesture: pointer-down, the move events in order, pointer-up.\<close>

definition dragSession ::
  "(SignatureElement list \<Rightarrow> 'j) \<Rightarrow> (real \<times> real) option \<Rightarrow> real \<times> real \<Rightarrow> string \<Rightarrow>
   (real \<times> real) list \<Rightarrow> AppState \<Rightarrow> AppState" where
  "dragSession stringify canvasRect start i moves st =
     (case handleDragStart canvasRect start i st of
        (st1, None) \<Rightarrow> st1
      | (st1, Some ctx) \<Rightarrow> upHandler stringify (foldl (\<lambda>s ev. moveHandler ctx ev s) st1 moves))"

section \<open>Resizing (App.tsx, lines 622-740)\<close>

definition handleResizeStart ::
  "real \<times> real \<Rightarrow> SignatureElement \<Rightarrow> string \<Rightarrow> AppState \<Rightarrow> AppState" where
  "handleResizeStart client sig h st =
     st\<lparr>historyStartRef := Some \<lparr>sigs = signatures st, draws = drawings st\<rparr>,
        resizeMode := \<lparr>isResizing = True, handle = Some h, startPos = client, startSig = Some sig\<rparr>\<rparr>"

text \<open>\<^verbatim>\<open>resizeMode.handle?.includes(c)\<close> for a one-character \<open>c\<close>.\<close>

definition handleIncludes :: "string option \<Rightarrow> char \<Rightarrow> bool" where
  "handleIncludes h c = (case h of None \<Rightarrow> False | Some s \<Rightarrow> c \<in> set s)"

text \<open>The helper \<^verbatim>\<open>getHPct\<close>, closed over the canvas rectangle.\<close>

definition getHPct :: "real \<Rightarrow> real \<Rightarrow> real \<Rightarrow> real \<Rightarrow> real" where
  "getHPct rectW rectH w r = (w * rectW) / r / rectH"

text \<open>
  The new \<open>(x, y, width, aspectRatio)\<close> that one move event of a resize computes from
  the element as it was at pointer-down.
\<close>

definition resizeGeometry ::
  "bool \<Rightarrow> string option \<Rightarrow> real \<times> real \<Rightarrow> real \<times> real \<Rightarrow> SignatureElement \<Rightarrow>
   real \<times> real \<times> real \<times> real" where
  "resizeGeometry locked h rect deltaPct s =
     (let rectW = fst rect; rectH = snd rect;
          deltaXPct = fst deltaPct; deltaYPct = snd deltaPct;
          x = sig_x s; y = sig_y s; width = sig_width s; ar = aspectRatio s;
          newHeightPct0 = getHPct rectW rectH width ar;
          (newX, newY, newWidth, ar1) =
            (if locked then
               let newWidth1 = (if handleIncludes h CHR ''e'' then max 1 (width + deltaXPct) else width);
                   (newWidth2, newX2) =
                     (if handleIncludes h CHR ''w''
                      then let change = min deltaXPct (width - 1) in (width - change, x + change)
                      else (newWidth1, x));
                   newY2 =
                     (if handleIncludes h CHR ''n''
                      then let oldH = getHPct rectW rectH width ar;
                               newH = getHPct rectW rectH newWidth2 ar
                           in y - (newH - oldH)
                      else y)
               in (newX2, newY2, newWidth2, ar)
             else
               let (newWidth1, newX1) =
                     (if handleIncludes h CHR ''e'' then (max 1 (width + deltaXPct), x)
                      else if handleIncludes h CHR ''w''
                      then let change = min deltaXPct (width - 1) in (width - change, x + change)
                      else (width, x));
                   (newHeightPct, newY1) =
                     (if handleIncludes h CHR ''s'' then (max 0.5 (newHeightPct0 + deltaYPct), y)
                      else if handleIncludes h CHR ''n''
                      then let change = min deltaYPct (newHeightPct0 - 0.5)
                           in (newHeightPct0 - change, y + change)
                      else (newHeightPct0, y));
                   wPx = (newWidth1 / 100) * rectW;
                   hPx = (newHeightPct / 100) * rectH
               in (newX1, newY1, newWidth1, wPx / hPx));
          newWidth' = (if newWidth < 1 then 1 else newWidth);
          newX' = (if newX < 0 then 0 else newX)
      in (newX', newY, newWidth', ar1))"

text \<open>
  \<^verbatim>\<open>handleMove\<close> of the resize effect. The effect installs it only while
  \<^verbatim>\<open>isResizing\<close> holds, a start element is set and the canvas is mounted.
\<close>

definition handleMove :: "(real \<times> real) option \<Rightarrow> real \<times> real \<Rightarrow> AppState \<Rightarrow> AppState" where
  "handleMove canvasRect client st =
     (if \<not> isResizing (resizeMode st) then st
      else case startSig (resizeMode st) of
        None \<Rightarrow> st
      | Some s \<Rightarrow>
          (case canvasRect of
             None \<Rightarrow> st
           | Some rect \<Rightarrow>
               (let deltaX = fst client - fst (startPos (resizeMode st));
                    deltaY = snd client - snd (startPos (resizeMode st));
                    deltaXPct = (deltaX / fst rect) * 100;
                    deltaYPct = (deltaY / snd rect) * 100;
                    (newX, newY, newWidth, ar) =
                      resizeGeometry (aspectRatioLocked st) (handle (resizeMode st)) rect
                        (deltaXPct, deltaYPct) s
                in st\<lparr>signatures :=
                         map (\<lambda>sig. if sig_id sig = sig_id s
                                     then sig\<lparr>sig_x := newX, sig_y := newY,
                                              sig_width := newWidth, aspectRatio := ar\<rparr>
                                     else sig)
                           (signatures st)\<rparr>)))"

definition handleUp :: "(SignatureElement list \<Rightarrow> 'j) \<Rightarrow> AppState \<Rightarrow> AppState" where
  "handleUp stringify st =
     st\<lparr>resizeMode := \<lparr>isResizing = False, handle = None, startPos = (0, 0), startSig = None\<rparr>,
        history := commitHistory stringify st\<rparr>"

text \<open>A whole resize gesture: pointer-down on a handle, the move events, pointer-up.\<close>

definition resizeSession ::
  "(SignatureElement list \<Rightarrow> 'j) \<Rightarrow> (real \<times> real) option \<Rightarrow> real \<times> real \<Rightarrow>
   SignatureElement \<Rightarrow> string \<Rightarrow> (real \<times> real) list \<Rightarrow> AppState \<Rightarrow> AppState" where
  "resizeSession stringify canvasRect client sig h moves st =
     handleUp stringify
       (foldl (\<lambda>s ev. handleMove canvasRect ev s) (handleResizeStart client sig h st) moves)"

section \<open>Rotation (App.tsx, lines 743-819)\<close>

text \<open>\<^verbatim>\<open>Math.atan2(y, x)\<close> on the reals (no signed zero).\<close>

definition atan2 :: "real \<Rightarrow> real \<Rightarrow> real" where
  "atan2 y x =
     (if 0 < x then arctan (y / x)
      else if x < 0 then (if 0 \<le> y then arctan (y / x) + pi else arctan (y / x) - pi)
      else if 0 < y then pi / 2
      else if y < 0 then - (pi / 2)
      else 0)"

text \<open>\<open>wrapper\<close> is the bounding rectangle \<open>(left, top, width, height)\<close> of the element.\<close>

definition handleRotateStart ::
  "real \<times> real \<times> real \<times> real \<Rightarrow> real \<times> real \<Rightarrow> SignatureElement \<Rightarrow> AppState \<Rightarrow> AppState" where
  "handleRotateStart wrapper client sig st =
     (let (rLeft, rTop, w, h) = wrapper;
          centerX = rLeft + w / 2;
          centerY = rTop + h / 2;
          startAngle' = atan2 (snd client - centerY) (fst client - centerX) * (180 / pi)
      in st\<lparr>historyStartRef := Some \<lparr>sigs = signatures st, draws = drawings st\<rparr>,
            rotateMode := \<lparr>isRotating = True, startAngle = startAngle',
                           initialRotation = rotation sig,
                           center = Some (centerX, centerY), sigId = Some (sig_id sig)\<rparr>\<rparr>)"

definition handleRotateMove :: "real \<times> real \<Rightarrow> AppState \<Rightarrow> AppState" where
  "handleRotateMove client st =
     (if \<not> isRotating (rotateMode st) then st
      else case center (rotateMode st) of
        None \<Rightarrow> st
      | Some c \<Rightarrow>
          (let currentAngle = atan2 (snd client - snd c) (fst client - fst c) * (180 / pi);
               deltaAngle = currentAngle - startAngle (rotateMode st);
               newRotation = initialRotation (rotateMode st) + deltaAngle
           in st\<lparr>signatures :=
                    map (\<lambda>s. if Some (sig_id s) = sigId (rotateMode st)
                              then s\<lparr>rotation := newRotation\<rparr> else s)
                      (signatures st)\<rparr>))"

definition handleRotateUp :: "(SignatureElement list \<Rightarrow> 'j) \<Rightarrow> AppState \<Rightarrow> AppState" where
  "handleRotateUp stringify st =
     st\<lparr>rotateMode := (rotateMode st)\<lparr>isRotating := False, center := None, sigId := None\<rparr>,
        history := commitHistory stringify st\<rparr>"

definition rotateSession ::
  "(SignatureElement list \<Rightarrow> 'j) \<Rightarrow> real \<times> real \<times> real \<times> real \<Rightarrow> real \<times> real \<Rightarrow>
   SignatureElement \<Rightarrow> (real \<times> real) list \<Rightarrow> AppState \<Rightarrow> AppState" where
  "rotateSession stringify wrapper client sig moves st =
     handleRotateUp stringify
       (foldl (\<lambda>s ev. handleRotateMove ev s) (handleRotateStart wrapper client sig st) moves)"

section \<open>The page invariant of the data model\<close>



section \<open>Document export (App.tsx, lines 857-957)\<close>

text \<open>The argument of one \<^verbatim>\<open>page.drawLine\<close> call.\<close>

record DrawLine =
  line_start :: "real \<times> real"
  line_end :: "real \<times> real"
  line_thickness :: real
  line_color :: Rgb
  line_opacity :: real

text \<open>The loop \<^verbatim>\<open>for (let j = 0; j < stroke.points.length - 1; j++)\<close>, from index \<open>j\<close> on.\<close>

function strokeLinesFrom :: "real \<Rightarrow> real \<Rightarrow> Stroke \<Rightarrow> Rgb \<Rightarrow> nat \<Rightarrow> DrawLine list" where
  "strokeLinesFrom pageWidth pageHeight stroke col j =
     (if int j < int (length (points stroke)) - 1
      then
        let p1 = points stroke ! j;
            p2 = points stroke ! (j + 1)
        in \<lparr>line_start = (pt_x p1 * pageWidth, pageHeight - (pt_y p1 * pageHeight)),
            line_end = (pt_x p2 * pageWidth, pageHeight - (pt_y p2 * pageHeight)),
            line_thickness = stroke_width stroke,
            line_color = col,
            line_opacity = 1\<rparr>
           # strokeLinesFrom pageWidth pageHeight stroke col (j + 1)
      else [])"
  by pat_completeness auto
termination
  by (relation "measure (\<lambda>(pageWidth, pageHeight, stroke, col, j). length (points stroke) - j)") auto

text \<open>The body of \<^verbatim>\<open>pageStrokes.forEach\<close>: the lines drawn for one stroke.\<close>

definition drawStroke :: "real \<Rightarrow> real \<Rightarrow> Stroke \<Rightarrow> DrawLine list" where
  "drawStroke pageWidth pageHeight stroke =
     (if length (points stroke) < 2 then []
      else strokeLinesFrom pageWidth pageHeight stroke (hexToRgb (color stroke)) 0)"

text \<open>Step 1 (burn drawings) for page \<open>i\<close> of the given size.\<close>

definition burnPageDrawings :: "PageDrawings \<Rightarrow> int \<Rightarrow> real \<Rightarrow> real \<Rightarrow> DrawLine list" where
  "burnPageDrawings ds i pageWidth pageHeight =
     (case ds i of
        None \<Rightarrow> []
      | Some pageStrokes \<Rightarrow>
          if length pageStrokes = 0 then []
          else concat (map (drawStroke pageWidth pageHeight) pageStrokes))"




section \<open>Raster export (App.tsx, lines 960-1054)\<close>














section \<open>Initial state and a new signature (App.tsx, lines 63-124 and 384-394)\<close>

definition initialState :: AppState where
  "initialState =
     \<lparr>signatures = [], drawings = Map.empty, history = \<lparr>past = [], future = []\<rparr>,
      historyStartRef = None, selectedSigId = None, pageNum = 1, isFreeDrawMode = False,
      aspectRatioLocked = True,
      resizeMode = \<lparr>isResizing = False, handle = None, startPos = (0, 0), startSig = None\<rparr>,
      rotateMode = \<lparr>isRotating = False, startAngle = 0, initialRotation = 0, center = None,
                    sigId = None\<rparr>,
      snapTargets = [], snapLines = []\<rparr>"

definition newSig :: "string \<Rightarrow> string \<Rightarrow> int \<Rightarrow> real \<Rightarrow> SignatureElement" where
  "newSig i url page ar =
     \<lparr>sig_id = i, dataUrl = url, pageIndex = page - 1, sig_x = 40, sig_y = 40, sig_width = 20,
      aspectRatio = ar, rotation = 0, opacity = 1\<rparr>"

text \<open>
  \<^verbatim>\<open>handleSaveSignature\<close> (lines 361-401): it records first; then, once the image has
  loaded, it replaces the image of the signature being edited or appends a new signature.
  \<open>newId\<close> is the value of \<^verbatim>\<open>crypto.randomUUID()\<close> and \<open>ar\<close> the image's width divided by
  its height.
\<close>

definition handleSaveSignature ::
  "string option \<Rightarrow> string \<Rightarrow> string \<Rightarrow> real \<Rightarrow> AppState \<Rightarrow> AppState" where
  "handleSaveSignature editingSigId newId url ar st =
     (let st1 = saveToHistory st;
          editing = (case editingSigId of None \<Rightarrow> False | Some eid \<Rightarrow> eid \<noteq> [])
      in if editing
         then st1\<lparr>signatures :=
                    map (\<lambda>s. if Some (sig_id s) = editingSigId
                              then s\<lparr>dataUrl := url, aspectRatio := ar\<rparr> else s)
                      (signatures st1)\<rparr>
         else st1\<lparr>signatures := signatures st1 @ [newSig newId url (pageNum st) ar],
                   selectedSigId := Some newId\<rparr>)"

text \<open>The state after one signature of aspect ratio 2 was placed on page 1 of a newly
  loaded document.\<close>

definition oneSigState :: AppState where
  "oneSigState = handleSaveSignature None ''a'' ''png'' 2 initialState"

section \<open>An example gesture\<close>

text \<open>Pointer-down at \<open>(100, 100)\<close> on the signature of \<open>oneSigState\<close>, on a canvas of
  1000 by 1000 pixels: the state and the captured context that \<open>handleDragStart\<close> gives.\<close>

definition exampleCtx :: DragCtx where
  "exampleCtx =
     \<lparr>drag_id = ''a'', drag_sig = newSig ''a'' ''png'' 1 2,
      drag_startX = 100, drag_startY = 100, drag_canvasW = 1000, drag_canvasH = 1000,
      drag_pageNum = 1, drag_snapTargets = []\<rparr>"

definition draggingState :: AppState where
  "draggingState =
     oneSigState\<lparr>historyStartRef :=
                   Some \<lparr>sigs = [newSig ''a'' ''png'' 1 2], draws = Map.empty\<rparr>\<rparr>"

text \<open>A second signature on page 1, of width 20, with its left edge at the given position.\<close>

definition siblingSig :: "real \<Rightarrow> SignatureElement" where
  "siblingSig left =
     \<lparr>sig_id = ''s'', dataUrl = ''png'', pageIndex = 0, sig_x = left, sig_y = 70, sig_width = 20,
      aspectRatio = 2, rotation = 0, opacity = 1\<rparr>"


section \<open>The history at the level of references\<close>

text \<open>
  In the source, \<^verbatim>\<open>signatures\<close> and \<^verbatim>\<open>drawings\<close> hold references to a JavaScript array
  and object, and a history entry \<^verbatim>\<open>{ sigs: signatures, draws: drawings }\<close> stores these
  two references. Whether an entry shares storage with the live state is not visible on
  values, so this section models the store: addresses of signature arrays and of drawing
  objects, and an allocation counter. Signature and stroke objects stay values: no
  statement of the source assigns to a field or an index of an existing object.
\<close>

type_synonym addr = nat

record Store =
  sigArrays :: "addr \<rightharpoonup> SignatureElement list"
  drawObjects :: "addr \<rightharpoonup> PageDrawings"
  nextAddr :: addr

record RefEntry =
  sigsRef :: addr
  drawsRef :: addr

record RefState =
  store :: Store
  signaturesR :: addr
  drawingsR :: addr
  pastR :: "RefEntry list"
  futureR :: "RefEntry list"
  historyStartR :: "RefEntry option"

text \<open>The array and the object a reference denotes.\<close>

definition sigsAt :: "Store \<Rightarrow> addr \<Rightarrow> SignatureElement list" where
  "sigsAt S a = (case sigArrays S a of None \<Rightarrow> [] | Some ss \<Rightarrow> ss)"

definition drawsAt :: "Store \<Rightarrow> addr \<Rightarrow> PageDrawings" where
  "drawsAt S a = (case drawObjects S a of None \<Rightarrow> Map.empty | Some d \<Rightarrow> d)"

definition derefEntry :: "Store \<Rightarrow> RefEntry \<Rightarrow> HistoryEntry" where
  "derefEntry S e = \<lparr>sigs = sigsAt S (sigsRef e), draws = drawsAt S (drawsRef e)\<rparr>"

text \<open>
  \<^verbatim>\<open>setSignatures(prev => ...)\<close> with \<^verbatim>\<open>prev.map(...)\<close>, \<^verbatim>\<open>prev.filter(...)\<close> or
  \<^verbatim>\<open>[...prev, newSig]\<close>: each builds a new array, which becomes the live one.
\<close>

definition setSignaturesR :: "(SignatureElement list \<Rightarrow> SignatureElement list) \<Rightarrow> RefState \<Rightarrow> RefState" where
  "setSignaturesR f st =
     (let S = store st;
          a = nextAddr S
      in st\<lparr>store := S\<lparr>sigArrays := (sigArrays S)(a \<mapsto> f (sigsAt S (signaturesR st))),
                         nextAddr := a + 1\<rparr>,
            signaturesR := a\<rparr>)"

text \<open>\<^verbatim>\<open>setDrawings(prev => ({ ...prev, [k]: ... }))\<close>: a new object.\<close>

definition setDrawingsR :: "(PageDrawings \<Rightarrow> PageDrawings) \<Rightarrow> RefState \<Rightarrow> RefState" where
  "setDrawingsR g st =
     (let S = store st;
          a = nextAddr S
      in st\<lparr>store := S\<lparr>drawObjects := (drawObjects S)(a \<mapsto> g (drawsAt S (drawingsR st))),
                         nextAddr := a + 1\<rparr>,
            drawingsR := a\<rparr>)"

definition saveToHistoryR :: "RefState \<Rightarrow> RefState" where
  "saveToHistoryR st =
     st\<lparr>pastR := pastR st @ [\<lparr>sigsRef = signaturesR st, drawsRef = drawingsR st\<rparr>],
        futureR := []\<rparr>"

definition undoR :: "RefState \<Rightarrow> RefState" where
  "undoR st =
     (if length (pastR st) = 0 then st
      else
        let previous = last (pastR st);
            newPast = butlast (pastR st)
        in st\<lparr>pastR := newPast,
               futureR := \<lparr>sigsRef = signaturesR st, drawsRef = drawingsR st\<rparr> # futureR st,
               signaturesR := sigsRef previous,
               drawingsR := drawsRef previous\<rparr>)"

definition redoR :: "RefState \<Rightarrow> RefState" where
  "redoR st =
     (if length (futureR st) = 0 then st
      else
        let next = hd (futureR st);
            newFuture = tl (futureR st)
        in st\<lparr>pastR := pastR st @ [\<lparr>sigsRef = signaturesR st, drawsRef = drawingsR st\<rparr>],
               futureR := newFuture,
               signaturesR := sigsRef next,
               drawingsR := drawsRef next\<rparr>)"

text \<open>\<^verbatim>\<open>historyStartRef.current = { sigs: signaturesRef.current, draws: drawings }\<close>.\<close>

definition snapshotStartR :: "RefState \<Rightarrow> RefState" where
  "snapshotStartR st =
     st\<lparr>historyStartR := Some \<lparr>sigsRef = signaturesR st, drawsRef = drawingsR st\<rparr>\<rparr>"

text \<open>The commit at pointer-up.\<close>

definition commitR :: "(SignatureElement list \<Rightarrow> 'j) \<Rightarrow> RefState \<Rightarrow> RefState" where
  "commitR stringify st =
     (case historyStartR st of
        None \<Rightarrow> st
      | Some startState \<Rightarrow>
          (let hasChanged = (stringify (sigsAt (store st) (sigsRef startState))
                             \<noteq> stringify (sigsAt (store st) (signaturesR st)))
           in if hasChanged
              then st\<lparr>pastR := pastR st @ [\<lparr>sigsRef = sigsRef startState,
                                             drawsRef = drawsRef startState\<rparr>],
                      futureR := []\<rparr>
              else st))"

text \<open>The updates of signatures, drawings and history that the handlers are made of.\<close>

datatype Step =
    SetSignatures "SignatureElement list \<Rightarrow> SignatureElement list"
  | SetDrawings "PageDrawings \<Rightarrow> PageDrawings"
  | SaveToHistory
  | Undo
  | Redo
  | SnapshotStart
  | Commit

fun stepR :: "(SignatureElement list \<Rightarrow> 'j) \<Rightarrow> Step \<Rightarrow> RefState \<Rightarrow> RefState" where
  "stepR stringify (SetSignatures f) st = setSignaturesR f st"
| "stepR stringify (SetDrawings g) st = setDrawingsR g st"
| "stepR stringify SaveToHistory st = saveToHistoryR st"
| "stepR stringify Undo st = undoR st"
| "stepR stringify Redo st = redoR st"
| "stepR stringify SnapshotStart st = snapshotStartR st"
| "stepR stringify Commit st = commitR stringify st"

definition runR :: "(SignatureElement list \<Rightarrow> 'j) \<Rightarrow> Step list \<Rightarrow> RefState \<Rightarrow> RefState" where
  "runR stringify steps st = foldl (\<lambda>s step. stepR stringify step s) st steps"

text \<open>The same updates on values, as the handlers of the earlier sections perform them.\<close>

fun stepV :: "(SignatureElement list \<Rightarrow> 'j) \<Rightarrow> Step \<Rightarrow> AppState \<Rightarrow> AppState" where
  "stepV stringify (SetSignatures f) st = st\<lparr>signatures := f (signatures st)\<rparr>"
| "stepV stringify (SetDrawings g) st = st\<lparr>drawings := g (drawings st)\<rparr>"
| "stepV stringify SaveToHistory st = saveToHistory st"
| "stepV stringify Undo st = undo st"
| "stepV stringify Redo st = redo st"
| "stepV stringify SnapshotStart st =
     st\<lparr>historyStartRef := Some \<lparr>sigs = signatures st, draws = drawings st\<rparr>\<rparr>"
| "stepV stringify Commit st = st\<lparr>history := commitHistory stringify st\<rparr>"

text \<open>Every reference held by the state has been allocated.\<close>

definition entryAllocated :: "Store \<Rightarrow> RefEntry \<Rightarrow> bool" where
  "entryAllocated S e \<longleftrightarrow> sigsRef e < nextAddr S \<and> drawsRef e < nextAddr S"

definition wellFormed :: "RefState \<Rightarrow> bool" where
  "wellFormed st \<longleftrightarrow>
     signaturesR st < nextAddr (store st) \<and> drawingsR st < nextAddr (store st) \<and>
     list_all (entryAllocated (store st)) (pastR st) \<and>
     list_all (entryAllocated (store st)) (futureR st) \<and>
     (case historyStartR st of None \<Rightarrow> True | Some e \<Rightarrow> entryAllocated (store st) e)"

text \<open>The value state a reference state denotes, in the fields the steps touch.\<close>

definition abstracts :: "RefState \<Rightarrow> AppState \<Rightarrow> bool" where
  "abstracts r a \<longleftrightarrow>
     signatures a = sigsAt (store r) (signaturesR r) \<and>
     drawings a = drawsAt (store r) (drawingsR r) \<and>
     past (history a) = map (derefEntry (store r)) (pastR r) \<and>
     future (history a) = map (derefEntry (store r)) (futureR r) \<and>
     historyStartRef a = map_option (derefEntry (store r)) (historyStartR r)"

text \<open>The reference state of a newly loaded document: array 0 is the empty signature
  array, object 1 the empty drawings.\<close>

definition initialRefState :: RefState where
  "initialRefState =
     \<lparr>store = \<lparr>sigArrays = [0 \<mapsto> []], drawObjects = [1 \<mapsto> Map.empty], nextAddr = 2\<rparr>,
      signaturesR = 0, drawingsR = 1, pastR = [], futureR = [], historyStartR = None\<rparr>"

text \<open>The reference state after one signature was placed: \<^verbatim>\<open>saveToHistory()\<close>, then
  \<^verbatim>\<open>setSignatures(prev => [...prev, newSig])\<close>.\<close>

definition oneSigRefState :: RefState where
  "oneSigRefState =
     setSignaturesR (\<lambda>prev. prev @ [newSig ''a'' ''png'' 1 2]) (saveToHistoryR initialRefState)"

section \<open>The example states\<close>

lemma oneSigState_eq:
  "oneSigState =
     initialState\<lparr>signatures := [newSig ''a'' ''png'' 1 2], selectedSigId := Some ''a'',
                   history := \<lparr>past = [\<lparr>sigs = [], draws = Map.empty\<rparr>], future = []\<rparr>\<rparr>"
  by (simp add: oneSigState_def handleSaveSignature_def saveToHistory_def initialState_def Let_def)

lemma oneSigRefState_eq:
  "oneSigRefState =
     \<lparr>store = \<lparr>sigArrays = [0 \<mapsto> [], 2 \<mapsto> [newSig ''a'' ''png'' 1 2]],
                drawObjects = [1 \<mapsto> Map.empty], nextAddr = 3\<rparr>,
      signaturesR = 2, drawingsR = 1, pastR = [\<lparr>sigsRef = 0, drawsRef = 1\<rparr>], futureR = [],
      historyStartR = None\<rparr>"
  by (simp add: oneSigRefState_def initialRefState_def setSignaturesR_def saveToHistoryR_def
      sigsAt_def Let_def)

section \<open>Properties of hexToRgb\<close>










section \<open>Undo and redo\<close>

lemma undo_empty: "past (history st) = [] \<Longrightarrow> undo st = st"
  by (simp add: undo_def)

lemma redo_empty: "future (history st) = [] \<Longrightarrow> redo st = st"
  by (simp add: redo_def)

lemma entry_eta: "\<lparr>sigs = sigs (e :: HistoryEntry), draws = draws e\<rparr> = e"
  by (cases e) simp

lemma history_eta: "\<lparr>past = past (h :: History), future = future h\<rparr> = h"
  by (cases h) simp

lemma redo_undo: "past (history st) \<noteq> [] \<Longrightarrow> redo (undo st) = st"
  by (simp add: undo_def redo_def Let_def entry_eta history_eta)

lemma undo_redo: "future (history st) \<noteq> [] \<Longrightarrow> undo (redo st) = st"
  by (simp add: undo_def redo_def Let_def entry_eta history_eta)

lemma past_undo: "past (history (undo st)) = butlast (past (history st))"
  by (simp add: undo_def Let_def)

lemma length_past_undo_pow: "length (past (history ((undo ^^ k) st))) = length (past (history st)) - k"
  by (induction k) (simp_all add: past_undo)

lemma past_undo_pow: "past (history ((undo ^^ k) st)) = take (length (past (history st)) - k) (past (history st))"
proof (induction k)
  case 0
  then show ?case by simp
next
  case (Suc k)
  then show ?case by (simp add: past_undo butlast_take)
qed

lemma live_undo:
  "past (history st) \<noteq> [] \<Longrightarrow>
   signatures (undo st) = sigs (last (past (history st))) \<and>
   drawings (undo st) = draws (last (past (history st)))"
  by (simp add: undo_def Let_def)

lemma live_undo_pow:
  assumes "1 \<le> k" "k \<le> length (past (history st))"
  shows "signatures ((undo ^^ k) st) = sigs (past (history st) ! (length (past (history st)) - k)) \<and>
         drawings ((undo ^^ k) st) = draws (past (history st) ! (length (past (history st)) - k))"
proof -
  obtain m where k: "k = Suc m" using assms(1) by (cases k) auto
  let ?P = "past (history st)"
  let ?s = "(undo ^^ m) st"
  have p: "past (history ?s) = take (length ?P - m) ?P" by (rule past_undo_pow)
  have ne: "past (history ?s) \<noteq> []" using assms(2) k by (auto simp: p)
  have "last (past (history ?s)) = ?P ! (length ?P - k)"
    using assms(2) k ne by (simp add: p last_conv_nth)
  with live_undo [OF ne] show ?thesis by (simp add: k)
qed

lemma redo_pow_undo_pow:
  "j \<le> k \<Longrightarrow> k \<le> length (past (history st)) \<Longrightarrow> (redo ^^ j) ((undo ^^ k) st) = (undo ^^ (k - j)) st"
proof (induction j)
  case 0
  then show ?case by simp
next
  case (Suc j)
  then have ih: "(redo ^^ j) ((undo ^^ k) st) = (undo ^^ (k - j)) st" by simp
  from Suc.prems obtain m where m: "k - j = Suc m" by (cases "k - j") auto
  have "m < length (past (history st))" using Suc.prems m by arith
  then have ne: "past (history ((undo ^^ m) st)) \<noteq> []"
    by (auto simp: past_undo_pow)
  have "(redo ^^ Suc j) ((undo ^^ k) st) = redo ((undo ^^ (k - j)) st)"
    by (simp add: ih)
  also have "\<dots> = redo (undo ((undo ^^ m) st))" by (simp add: m)
  also have "\<dots> = (undo ^^ m) st" by (rule redo_undo [OF ne])
  also have "m = k - Suc j" using m by simp
  finally show ?case .
qed


text \<open>
  Claim C2. With \<open>N\<close> entries in the past stack, the \<open>k\<close>-th undo makes the
  \<open>k\<close>-th most recent recorded (pre-mutation) state live; then \<open>j\<close> redos lead back to
  the state that \<open>N - j\<close> undos had reached, so \<open>N\<close> redos restore the state before the
  first undo exactly. Undo on an empty past and redo on an empty future change nothing.
\<close>

theorem undo_redo_roundtrip:
  "(\<forall>k. 1 \<le> k \<and> k \<le> length (past (history st)) \<longrightarrow>
        signatures ((undo ^^ k) st) = sigs (past (history st) ! (length (past (history st)) - k)) \<and>
        drawings ((undo ^^ k) st) = draws (past (history st) ! (length (past (history st)) - k))) \<and>
   (\<forall>j. j \<le> length (past (history st)) \<longrightarrow>
        (redo ^^ j) ((undo ^^ length (past (history st))) st) =
        (undo ^^ (length (past (history st)) - j)) st) \<and>
   (redo ^^ length (past (history st))) ((undo ^^ length (past (history st))) st) = st \<and>
   (past (history st) = [] \<longrightarrow> undo st = st) \<and>
   (future (history st) = [] \<longrightarrow> redo st = st)"
proof (intro conjI allI impI)
  fix k assume "1 \<le> k \<and> k \<le> length (past (history st))"
  then show "signatures ((undo ^^ k) st) = sigs (past (history st) ! (length (past (history st)) - k))"
    and "drawings ((undo ^^ k) st) = draws (past (history st) ! (length (past (history st)) - k))"
    using live_undo_pow [of k st] by simp_all
next
  fix j assume "j \<le> length (past (history st))"
  then show "(redo ^^ j) ((undo ^^ length (past (history st))) st) =
        (undo ^^ (length (past (history st)) - j)) st"
    by (rule redo_pow_undo_pow) simp
next
  show "(redo ^^ length (past (history st))) ((undo ^^ length (past (history st))) st) = st"
    using redo_pow_undo_pow [of "length (past (history st))" "length (past (history st))" st] by simp
next
  assume "past (history st) = []" then show "undo st = st" by (rule undo_empty)
next
  assume "future (history st) = []" then show "redo st = st" by (rule redo_empty)
qed


lemma two_mutations_past:
  "past (history (deleteSignature ''a'' (handleDuplicateSignature ''b'' ''a'' oneSigState))) =
     [\<lparr>sigs = [], draws = Map.empty\<rparr>,
      \<lparr>sigs = [newSig ''a'' ''png'' 1 2], draws = Map.empty\<rparr>,
      \<lparr>sigs = [newSig ''a'' ''png'' 1 2,
               (newSig ''a'' ''png'' 1 2)\<lparr>sig_id := ''b'', sig_x := 42, sig_y := 42\<rparr>],
       draws = Map.empty\<rparr>]"
  by (simp add: deleteSignature_def handleDuplicateSignature_def oneSigState_eq initialState_def
      newSig_def saveToHistory_def Let_def)

theorem undo_redo_roundtrip_witness:
  "length (past (history (deleteSignature ''a'' (handleDuplicateSignature ''b'' ''a'' oneSigState)))) = 3 \<and>
   signatures ((undo ^^ 1) (deleteSignature ''a'' (handleDuplicateSignature ''b'' ''a'' oneSigState))) =
     [newSig ''a'' ''png'' 1 2,
      (newSig ''a'' ''png'' 1 2)\<lparr>sig_id := ''b'', sig_x := 42, sig_y := 42\<rparr>] \<and>
   signatures ((undo ^^ 2) (deleteSignature ''a'' (handleDuplicateSignature ''b'' ''a'' oneSigState))) =
     [newSig ''a'' ''png'' 1 2] \<and>
   signatures ((undo ^^ 3) (deleteSignature ''a'' (handleDuplicateSignature ''b'' ''a'' oneSigState))) = [] \<and>
   (redo ^^ 1) ((undo ^^ 3) (deleteSignature ''a'' (handleDuplicateSignature ''b'' ''a'' oneSigState))) =
     (undo ^^ 2) (deleteSignature ''a'' (handleDuplicateSignature ''b'' ''a'' oneSigState)) \<and>
   (redo ^^ 3) ((undo ^^ 3) (deleteSignature ''a'' (handleDuplicateSignature ''b'' ''a'' oneSigState))) =
     deleteSignature ''a'' (handleDuplicateSignature ''b'' ''a'' oneSigState) \<and>
   past (history initialState) = [] \<and> undo initialState = initialState \<and>
   future (history initialState) = [] \<and> redo initialState = initialState"
proof -
  let ?st = "deleteSignature ''a'' (handleDuplicateSignature ''b'' ''a'' oneSigState)"
  note p = two_mutations_past
  have len: "length (past (history ?st)) = 3" by (simp add: p)
  have e: "past (history initialState) = []" "future (history initialState) = []"
    by (simp_all add: initialState_def)
  from undo_redo_roundtrip [of ?st] have
    a: "\<And>k. 1 \<le> k \<and> k \<le> 3 \<Longrightarrow>
          signatures ((undo ^^ k) ?st) = sigs (past (history ?st) ! (3 - k))" and
    j: "\<And>j. j \<le> 3 \<Longrightarrow> (redo ^^ j) ((undo ^^ 3) ?st) = (undo ^^ (3 - j)) ?st" and
    b: "(redo ^^ 3) ((undo ^^ 3) ?st) = ?st"
    unfolding len by blast+
  from a [of 1] have a1: "signatures ((undo ^^ 1) ?st) = [newSig ''a'' ''png'' 1 2,
      (newSig ''a'' ''png'' 1 2)\<lparr>sig_id := ''b'', sig_x := 42, sig_y := 42\<rparr>]"
    by (simp add: p)
  from a [of 2] have a2: "signatures ((undo ^^ 2) ?st) = [newSig ''a'' ''png'' 1 2]"
    by (simp add: p)
  from a [of 3] have a3: "signatures ((undo ^^ 3) ?st) = []"
    by (simp add: p)
  from j [of 1] have j1: "(redo ^^ 1) ((undo ^^ 3) ?st) = (undo ^^ 2) ?st"
    by simp
  from undo_redo_roundtrip [of initialState] e
  have c: "undo initialState = initialState" "redo initialState = initialState"
    by blast+
  from len a1 a2 a3 j1 b c e show ?thesis by blast
qed

section \<open>Recording and committing\<close>

lemma history_saveToHistory:
  "history (saveToHistory st) =
     \<lparr>past = past (history st) @ [\<lparr>sigs = signatures st, draws = drawings st\<rparr>], future = []\<rparr>"
  by (simp add: saveToHistory_def)

lemma commitHistory_changed:
  "historyStartRef st = Some e \<Longrightarrow> stringify (sigs e) \<noteq> stringify (signatures st) \<Longrightarrow>
   commitHistory stringify st = \<lparr>past = past (history st) @ [e], future = []\<rparr>"
  by (simp add: commitHistory_def entry_eta)

lemma commitHistory_unchanged:
  "historyStartRef st = Some e \<Longrightarrow> stringify (sigs e) = stringify (signatures st) \<Longrightarrow>
   commitHistory stringify st = history st"
  by (simp add: commitHistory_def)

lemma commitHistory_none:
  "historyStartRef st = None \<Longrightarrow> commitHistory stringify st = history st"
  by (simp add: commitHistory_def)

lemma history_up_handlers:
  "history (upHandler stringify st) = commitHistory stringify st"
  "history (handleUp stringify st) = commitHistory stringify st"
  "history (handleRotateUp stringify st) = commitHistory stringify st"
  by (simp_all add: upHandler_def handleUp_def handleRotateUp_def)

lemma history_mutations:
  "eid \<noteq> [] \<Longrightarrow> history (handleSaveStyle (Some eid) url op st) = history (saveToHistory st)"
  "history (handleAddStroke stroke st) = history (saveToHistory st)"
  "history (handleClearPage st) = history (saveToHistory st)"
  "history (deleteSignature i st) = history (saveToHistory st)"
  "find (\<lambda>s. sig_id s = i) (signatures st) = Some orig \<Longrightarrow>
     history (handleDuplicateSignature newId i st) = history (saveToHistory st)"
  by (simp_all add: handleSaveStyle_def handleAddStroke_def handleClearPage_def
      deleteSignature_def handleDuplicateSignature_def Let_def)

text \<open>Placing or redrawing a signature records through the same call.\<close>

lemma history_handleSaveSignature:
  "history (handleSaveSignature editingSigId newId url ar st) = history (saveToHistory st)"
  by (simp add: handleSaveSignature_def Let_def)

text \<open>
  Claim C7. Every recording appends exactly one entry to the past stack and empties the
  future stack: \<^verbatim>\<open>saveToHistory\<close> (and with it every mutation that calls it) appends the
  live state, and the commit of a drag, resize or rotate gesture whose serialised
  signatures changed appends the snapshot taken at pointer-down. After a recording, redo
  does nothing, whatever undo had left in the future stack.
\<close>

theorem record_appends_and_clears_future:
  "history (saveToHistory st) =
     \<lparr>past = past (history st) @ [\<lparr>sigs = signatures st, draws = drawings st\<rparr>], future = []\<rparr> \<and>
   (eid \<noteq> [] \<longrightarrow>
      history (handleSaveStyle (Some eid) url op st) = history (saveToHistory st)) \<and>
   history (handleAddStroke stroke st) = history (saveToHistory st) \<and>
   history (handleClearPage st) = history (saveToHistory st) \<and>
   history (deleteSignature i st) = history (saveToHistory st) \<and>
   (find (\<lambda>s. sig_id s = i) (signatures st) \<noteq> None \<longrightarrow>
      history (handleDuplicateSignature newId i st) = history (saveToHistory st)) \<and>
   (\<forall>e. historyStartRef st = Some e \<and> stringify (sigs e) \<noteq> stringify (signatures st) \<longrightarrow>
      history (upHandler stringify st) = \<lparr>past = past (history st) @ [e], future = []\<rparr> \<and>
      history (handleUp stringify st) = \<lparr>past = past (history st) @ [e], future = []\<rparr> \<and>
      history (handleRotateUp stringify st) = \<lparr>past = past (history st) @ [e], future = []\<rparr>) \<and>
   redo (saveToHistory (undo st)) = saveToHistory (undo st)"
proof -
  have "redo (saveToHistory (undo st)) = saveToHistory (undo st)"
    by (rule redo_empty) (simp add: history_saveToHistory)
  moreover have "find (\<lambda>s. sig_id s = i) (signatures st) \<noteq> None \<longrightarrow>
      history (handleDuplicateSignature newId i st) = history (saveToHistory st)"
    using history_mutations(5) by blast
  moreover have "eid \<noteq> [] \<longrightarrow>
      history (handleSaveStyle (Some eid) url op st) = history (saveToHistory st)"
    using history_mutations(1) by blast
  ultimately show ?thesis
    by (simp add: history_mutations(2-4) history_up_handlers commitHistory_changed
        history_saveToHistory)
qed

section \<open>Gestures and the history\<close>

lemma moveHandler_keeps:
  "history (moveHandler ctx ev s) = history s"
  "historyStartRef (moveHandler ctx ev s) = historyStartRef s"
  by (simp_all add: moveHandler_def Let_def)

lemma handleMove_keeps:
  "history (handleMove cr ev s) = history s"
  "historyStartRef (handleMove cr ev s) = historyStartRef s"
  by (simp_all add: handleMove_def Let_def split: option.splits prod.splits)

lemma handleRotateMove_keeps:
  "history (handleRotateMove ev s) = history s"
  "historyStartRef (handleRotateMove ev s) = historyStartRef s"
  by (simp_all add: handleRotateMove_def Let_def split: option.splits)

lemma foldl_keeps:
  assumes "\<And>s ev. history (f s ev) = history s"
    and "\<And>s ev. historyStartRef (f s ev) = historyStartRef s"
  shows "history (foldl f st moves) = history st \<and>
         historyStartRef (foldl f st moves) = historyStartRef st"
  by (induction moves arbitrary: st) (simp_all add: assms)

lemma handleDragStart_result:
  assumes "handleDragStart cr start i st = (st1, r)"
  shows "history st1 = history st" and "signatures st1 = signatures st"
    and "r \<noteq> None \<Longrightarrow> historyStartRef st1 = Some \<lparr>sigs = signatures st, draws = drawings st\<rparr>"
  using assms
  by (auto simp: handleDragStart_def Let_def split: if_splits option.splits prod.splits)

lemma signatures_up_handlers:
  "signatures (upHandler stringify st) = signatures st"
  "signatures (handleUp stringify st) = signatures st"
  "signatures (handleRotateUp stringify st) = signatures st"
  by (simp_all add: upHandler_def handleUp_def handleRotateUp_def)

lemma dragSession_no_change:
  assumes "stringify (signatures (dragSession stringify cr start i moves st)) = stringify (signatures st)"
  shows "history (dragSession stringify cr start i moves st) = history st"
proof -
  obtain st1 r where ds: "handleDragStart cr start i st = (st1, r)" by (cases "handleDragStart cr start i st")
  show ?thesis
  proof (cases r)
    case None
    with ds show ?thesis by (simp add: dragSession_def handleDragStart_result(1) [OF ds])
  next
    case (Some ctx)
    let ?f = "\<lambda>s ev. moveHandler ctx ev s"
    let ?m = "foldl ?f st1 moves"
    have k: "history ?m = history st1" "historyStartRef ?m = historyStartRef st1"
      using foldl_keeps [of ?f st1 moves] by (simp_all add: moveHandler_keeps)
    have s: "dragSession stringify cr start i moves st = upHandler stringify ?m"
      using ds Some by (simp add: dragSession_def)
    from assms have "stringify (signatures ?m) = stringify (signatures st)"
      by (simp add: s signatures_up_handlers)
    moreover have "historyStartRef ?m = Some \<lparr>sigs = signatures st, draws = drawings st\<rparr>"
      using handleDragStart_result(3) [OF ds] Some k by simp
    ultimately have "commitHistory stringify ?m = history ?m"
      by (simp add: commitHistory_unchanged)
    then show ?thesis
      by (simp add: s history_up_handlers k handleDragStart_result(1) [OF ds])
  qed
qed

lemma resizeSession_no_change:
  assumes "stringify (signatures (resizeSession stringify cr client sig h moves st)) = stringify (signatures st)"
  shows "history (resizeSession stringify cr client sig h moves st) = history st"
proof -
  let ?st1 = "handleResizeStart client sig h st"
  let ?f = "\<lambda>s ev. handleMove cr ev s"
  let ?m = "foldl ?f ?st1 moves"
  have k: "history ?m = history ?st1" "historyStartRef ?m = historyStartRef ?st1"
    using foldl_keeps [of ?f ?st1 moves] by (simp_all add: handleMove_keeps)
  have st1: "history ?st1 = history st"
    "historyStartRef ?st1 = Some \<lparr>sigs = signatures st, draws = drawings st\<rparr>"
    by (simp_all add: handleResizeStart_def)
  from assms have "stringify (signatures ?m) = stringify (signatures st)"
    by (simp add: resizeSession_def signatures_up_handlers)
  then have "commitHistory stringify ?m = history ?m"
    using k st1 by (simp add: commitHistory_unchanged)
  then show ?thesis
    by (simp add: resizeSession_def history_up_handlers k st1)
qed

lemma rotateSession_no_change:
  assumes "stringify (signatures (rotateSession stringify wr client sig moves st)) = stringify (signatures st)"
  shows "history (rotateSession stringify wr client sig moves st) = history st"
proof -
  let ?st1 = "handleRotateStart wr client sig st"
  let ?f = "\<lambda>s ev. handleRotateMove ev s"
  let ?m = "foldl ?f ?st1 moves"
  have k: "history ?m = history ?st1" "historyStartRef ?m = historyStartRef ?st1"
    using foldl_keeps [of ?f ?st1 moves] by (simp_all add: handleRotateMove_keeps)
  have st1: "history ?st1 = history st"
    "historyStartRef ?st1 = Some \<lparr>sigs = signatures st, draws = drawings st\<rparr>"
    by (simp_all add: handleRotateStart_def Let_def split: prod.splits)
  from assms have "stringify (signatures ?m) = stringify (signatures st)"
    by (simp add: rotateSession_def signatures_up_handlers)
  then have "commitHistory stringify ?m = history ?m"
    using k st1 by (simp add: commitHistory_unchanged)
  then show ?thesis
    by (simp add: rotateSession_def history_up_handlers k st1)
qed

subsection \<open>The example gesture, evaluated\<close>

lemma handleDragStart_example:
  "handleDragStart (Some (1000, 1000)) (100, 100) ''a'' oneSigState = (draggingState, Some exampleCtx)"
  by (simp add: handleDragStart_def oneSigState_eq initialState_def newSig_def draggingState_def
      exampleCtx_def)

lemma example_snap_points:
  "sig_id s = ''a'' \<Longrightarrow> vSnapPoints exampleCtx [s] = [0, 50, 100]"
  "sig_id s = ''a'' \<Longrightarrow> hSnapPoints exampleCtx [s] = [0, 50, 100]"
  by (simp_all add: vSnapPoints_def hSnapPoints_def exampleCtx_def)

lemma example_hPct: "dragHPct exampleCtx = 10"
  by (simp add: dragHPct_def exampleCtx_def newSig_def)

lemma example_proposed:
  "proposedX exampleCtx (600, 100) = 80" "proposedX exampleCtx (100, 100) = 40"
  "proposedY exampleCtx (600, 100) = 40" "proposedY exampleCtx (100, 100) = 40"
  by (simp_all add: proposedX_def proposedY_def example_hPct) (simp_all add: exampleCtx_def newSig_def)

lemma example_snapAxis:
  "snapAxis Vertical 80 [] 20 [0, 50, 100] =
     \<lparr>minDiff = 0, nextPos = 80, activeLines = [\<lparr>orientation = Vertical, position = 100\<rparr>],
      snapped = True\<rparr>"
  "snapAxis Vertical 40 [] 20 [0, 50, 100] =
     \<lparr>minDiff = 0, nextPos = 40, activeLines = [\<lparr>orientation = Vertical, position = 50\<rparr>],
      snapped = True\<rparr>"
  "snapAxis Horizontal 40 ls 10 [0, 50, 100] =
     \<lparr>minDiff = 0, nextPos = 40,
      activeLines = ls @ [\<lparr>orientation = Horizontal, position = 50\<rparr>], snapped = True\<rparr>"
  by (simp_all add: snapAxis_def SNAP_THRESHOLD_def)

lemma example_ctx_fields: "sig_width (drag_sig exampleCtx) = 20" "drag_id exampleCtx = ''a''"
  by (simp_all add: exampleCtx_def newSig_def)

lemma example_move_away:
  "sig_id s = ''a'' \<Longrightarrow> sig_width s = 20 \<Longrightarrow> signatures st = [s] \<Longrightarrow>
   signatures (moveHandler exampleCtx (600, 100) st) = [s\<lparr>sig_x := 80, sig_y := 40\<rparr>]"
  by (simp add: moveHandler_def dragSnapX_def dragSnapY_def example_snap_points example_hPct
      example_proposed example_snapAxis example_ctx_fields)

lemma example_move_back:
  "sig_id s = ''a'' \<Longrightarrow> sig_width s = 20 \<Longrightarrow> signatures st = [s] \<Longrightarrow>
   signatures (moveHandler exampleCtx (100, 100) st) = [s\<lparr>sig_x := 40, sig_y := 40\<rparr>]"
  by (simp add: moveHandler_def dragSnapX_def dragSnapY_def example_snap_points example_hPct
      example_proposed example_snapAxis example_ctx_fields)

lemma example_away_state:
  "signatures (moveHandler exampleCtx (600, 100) draggingState) =
     [(newSig ''a'' ''png'' 1 2)\<lparr>sig_x := 80, sig_y := 40\<rparr>]"
  by (rule example_move_away) (simp_all add: draggingState_def oneSigState_eq newSig_def)

lemma example_back_state:
  "signatures (moveHandler exampleCtx (100, 100) (moveHandler exampleCtx (600, 100) draggingState)) =
     [newSig ''a'' ''png'' 1 2]"
proof -
  have "signatures (moveHandler exampleCtx (100, 100) (moveHandler exampleCtx (600, 100) draggingState)) =
     [(newSig ''a'' ''png'' 1 2)\<lparr>sig_x := 80, sig_y := 40, sig_x := 40, sig_y := 40\<rparr>]"
    by (rule example_move_back [OF _ _ example_away_state]) (simp_all add: newSig_def)
  then show ?thesis by (simp add: newSig_def)
qed

lemma example_out_and_back:
  "signatures (dragSession stringify (Some (1000, 1000)) (100, 100) ''a'' [(600, 100), (100, 100)] oneSigState)
     = signatures oneSigState"
proof -
  have "signatures (dragSession stringify (Some (1000, 1000)) (100, 100) ''a'' [(600, 100), (100, 100)] oneSigState)
     = [newSig ''a'' ''png'' 1 2]"
    by (simp add: dragSession_def handleDragStart_example signatures_up_handlers example_back_state)
  then show ?thesis by (simp add: oneSigState_eq)
qed

text \<open>
  Claim C6. A gesture whose serialised signatures at pointer-up equal those of the snapshot
  taken at pointer-down pushes no entry: this holds for each of the three commit handlers
  and so for a whole drag, resize or rotate gesture. The commit decides by exactly this
  comparison of the two serialisations.
\<close>

theorem no_net_change_no_entry:
  "(\<forall>e. historyStartRef st = Some e \<and> stringify (sigs e) = stringify (signatures st) \<longrightarrow>
        history (upHandler stringify st) = history st \<and>
        history (handleUp stringify st) = history st \<and>
        history (handleRotateUp stringify st) = history st) \<and>
   (stringify (signatures (dragSession stringify cr start i moves st)) = stringify (signatures st) \<longrightarrow>
        history (dragSession stringify cr start i moves st) = history st) \<and>
   (stringify (signatures (resizeSession stringify cr start sig h moves st)) = stringify (signatures st) \<longrightarrow>
        history (resizeSession stringify cr start sig h moves st) = history st) \<and>
   (stringify (signatures (rotateSession stringify wr start sig moves st)) = stringify (signatures st) \<longrightarrow>
        history (rotateSession stringify wr start sig moves st) = history st) \<and>
   history (upHandler stringify st) =
     (case historyStartRef st of
        None \<Rightarrow> history st
      | Some e \<Rightarrow> if stringify (sigs e) \<noteq> stringify (signatures st)
                  then \<lparr>past = past (history st) @ [e], future = []\<rparr> else history st)"
proof (intro conjI allI impI)
  fix e assume a: "historyStartRef st = Some e \<and> stringify (sigs e) = stringify (signatures st)"
  then have "commitHistory stringify st = history st" by (simp add: commitHistory_unchanged)
  then show "history (upHandler stringify st) = history st"
    "history (handleUp stringify st) = history st"
    "history (handleRotateUp stringify st) = history st"
    by (simp_all add: history_up_handlers)
next
  show "history (upHandler stringify st) =
     (case historyStartRef st of
        None \<Rightarrow> history st
      | Some e \<Rightarrow> if stringify (sigs e) \<noteq> stringify (signatures st)
                  then \<lparr>past = past (history st) @ [e], future = []\<rparr> else history st)"
    by (simp add: history_up_handlers commitHistory_def entry_eta split: option.splits)
qed (rule dragSession_no_change resizeSession_no_change rotateSession_no_change, assumption)+

theorem no_net_change_no_entry_witness:
  "(\<lambda>ss. ss) (signatures (dragSession (\<lambda>ss. ss) (Some (1000, 1000)) (100, 100) ''a''
                             [(600, 100), (100, 100)] oneSigState)) =
     (\<lambda>ss. ss) (signatures oneSigState) \<and>
   history (dragSession (\<lambda>ss. ss) (Some (1000, 1000)) (100, 100) ''a''
              [(600, 100), (100, 100)] oneSigState) =
     \<lparr>past = [\<lparr>sigs = [], draws = Map.empty\<rparr>], future = []\<rparr>"
proof -
  have h: "(\<lambda>ss. ss) (signatures (dragSession (\<lambda>ss. ss) (Some (1000, 1000)) (100, 100) ''a''
                             [(600, 100), (100, 100)] oneSigState)) =
     (\<lambda>ss. ss) (signatures oneSigState)"
    by (simp add: example_out_and_back)
  with no_net_change_no_entry [of oneSigState "\<lambda>ss. ss" "Some (1000, 1000)" "(100, 100)" "''a''"
      "[(600, 100), (100, 100)]"]
  have "history (dragSession (\<lambda>ss. ss) (Some (1000, 1000)) (100, 100) ''a''
              [(600, 100), (100, 100)] oneSigState) = history oneSigState"
    by blast
  with h show ?thesis by (simp add: oneSigState_eq initialState_def)
qed

theorem record_appends_and_clears_future_witness:
  "future (history (undo (deleteSignature ''a'' oneSigState))) \<noteq> [] \<and>
   history (saveToHistory (undo (deleteSignature ''a'' oneSigState))) =
     \<lparr>past = [\<lparr>sigs = [], draws = Map.empty\<rparr>,
              \<lparr>sigs = [newSig ''a'' ''png'' 1 2], draws = Map.empty\<rparr>], future = []\<rparr> \<and>
   find (\<lambda>s. sig_id s = ''a'') (signatures oneSigState) \<noteq> None \<and>
   history (handleDuplicateSignature ''b'' ''a'' oneSigState) =
     \<lparr>past = [\<lparr>sigs = [], draws = Map.empty\<rparr>,
              \<lparr>sigs = [newSig ''a'' ''png'' 1 2], draws = Map.empty\<rparr>], future = []\<rparr> \<and>
   historyStartRef (moveHandler exampleCtx (600, 100) draggingState) =
     Some \<lparr>sigs = [newSig ''a'' ''png'' 1 2], draws = Map.empty\<rparr> \<and>
   (\<lambda>ss. ss) (sigs \<lparr>sigs = [newSig ''a'' ''png'' 1 2], draws = Map.empty\<rparr>) \<noteq>
     (\<lambda>ss. ss) (signatures (moveHandler exampleCtx (600, 100) draggingState)) \<and>
   history (upHandler (\<lambda>ss. ss) (moveHandler exampleCtx (600, 100) draggingState)) =
     \<lparr>past = [\<lparr>sigs = [], draws = Map.empty\<rparr>,
              \<lparr>sigs = [newSig ''a'' ''png'' 1 2], draws = Map.empty\<rparr>], future = []\<rparr>"
proof -
  let ?u = "undo (deleteSignature ''a'' oneSigState)"
  let ?m = "moveHandler exampleCtx (600, 100) draggingState"
  let ?e = "\<lparr>sigs = [newSig ''a'' ''png'' 1 2], draws = Map.empty\<rparr>"
  have u: "future (history ?u) \<noteq> []" "past (history ?u) = [\<lparr>sigs = [], draws = Map.empty\<rparr>]"
    "signatures ?u = [newSig ''a'' ''png'' 1 2]" "drawings ?u = Map.empty"
    by (simp_all add: undo_def deleteSignature_def saveToHistory_def oneSigState_eq
        initialState_def Let_def)
  have f: "find (\<lambda>s. sig_id s = ''a'') (signatures oneSigState) \<noteq> None"
    by (simp add: oneSigState_eq newSig_def)
  have o: "past (history oneSigState) = [\<lparr>sigs = [], draws = Map.empty\<rparr>]" "signatures oneSigState = [newSig ''a'' ''png'' 1 2]"
    "drawings oneSigState = Map.empty"
    by (simp_all add: oneSigState_eq initialState_def)
  have m: "historyStartRef ?m = Some ?e" "past (history ?m) = [\<lparr>sigs = [], draws = Map.empty\<rparr>]"
    by (simp_all add: moveHandler_keeps draggingState_def oneSigState_eq initialState_def)
  have c: "(\<lambda>ss. ss) (sigs ?e) \<noteq> (\<lambda>ss. ss) (signatures ?m)"
    by (simp add: example_away_state newSig_def)
  note t1 = record_appends_and_clears_future [where st = ?u, THEN conjunct1]
  note t2 = record_appends_and_clears_future [where st = oneSigState and i = "''a''" and newId = "''b''",
      THEN conjunct2, THEN conjunct2, THEN conjunct2, THEN conjunct2, THEN conjunct2, THEN conjunct1]
  note t3 = record_appends_and_clears_future [where st = ?m and stringify = "\<lambda>ss. ss",
      THEN conjunct2, THEN conjunct2, THEN conjunct2, THEN conjunct2, THEN conjunct2, THEN conjunct2,
      THEN conjunct1]
  from t1 have 1: "history (saveToHistory ?u) = \<lparr>past = [\<lparr>sigs = [], draws = Map.empty\<rparr>, ?e], future = []\<rparr>"
    by (simp add: u)
  from t2 f
  have 2: "history (handleDuplicateSignature ''b'' ''a'' oneSigState) = \<lparr>past = [\<lparr>sigs = [], draws = Map.empty\<rparr>, ?e], future = []\<rparr>"
    by (simp add: o history_saveToHistory)
  from t3 m(1) c
  have 3: "history (upHandler (\<lambda>ss. ss) ?m) = \<lparr>past = past (history ?m) @ [?e], future = []\<rparr>"
    by blast
  from u(1) 1 f 2 m(1) c 3 show ?thesis by (simp add: m(2))
qed

section \<open>Snapping\<close>

lemma snap_left_edge_at_50:
  "snapAxis Vertical (503 / 10) [] 20 [0, 50, 100, 50, 60, 70] =
     \<lparr>minDiff = 3 / 10, nextPos = 50,
      activeLines = [\<lparr>orientation = Vertical, position = 50\<rparr>], snapped = True\<rparr>"
  by (simp add: snapAxis_def SNAP_THRESHOLD_def)

text \<open>
  Claim C3. Threshold 0.5, no form fields, a sibling on the same page at \<open>x = 50\<close> of width
  20, and a dragged element of width 20 whose proposed position puts its right edge at
  70.3: the move event leaves the dragged element at \<open>x = 50\<close> exactly. (It is the left
  edge, tried first, that snaps: to the candidate 50.)
\<close>

theorem snap_resolves_to_50:
  assumes "drag_snapTargets ctx = []"
    and "sig_width (drag_sig ctx) = 20"
    and "proposedX ctx cur + sig_width (drag_sig ctx) = 70.3"
    and "signatures st = [m, sib]"
    and "sig_id m = drag_id ctx" and "sig_width m = 20"
    and "sig_id sib \<noteq> drag_id ctx" and "pageIndex sib = drag_pageNum ctx - 1"
    and "sig_x sib = 50" and "sig_width sib = 20"
  shows "SNAP_THRESHOLD = 0.5 \<and>
         vSnapPoints ctx (signatures st) = [0, 50, 100, 50, 60, 70] \<and>
         signatures (moveHandler ctx cur st) =
           [m\<lparr>sig_x := 50,
              sig_y := min (max (nextPos (dragSnapY ctx cur (signatures st))) 0) (100 - dragHPct ctx)\<rparr>,
            sib] \<and>
         sig_x (hd (signatures (moveHandler ctx cur st))) = 50"
proof -
  have v: "vSnapPoints ctx [m, sib] = [0, 50, 100, 50, 60, 70]"
    using assms by (simp add: vSnapPoints_def)
  have p: "proposedX ctx cur = 503 / 10" using assms(2,3) by simp
  have x: "nextPos (dragSnapX ctx cur [m, sib]) = 50"
    by (simp add: dragSnapX_def v p assms(2) snap_left_edge_at_50)
  have "signatures (moveHandler ctx cur st) =
      [m\<lparr>sig_x := 50, sig_y := min (max (nextPos (dragSnapY ctx cur [m, sib])) 0) (100 - dragHPct ctx)\<rparr>, sib]"
    using assms(4-7) by (simp add: moveHandler_def Let_def x)
  then show ?thesis using v assms(4) by (simp add: SNAP_THRESHOLD_def)
qed


theorem snap_resolves_to_50_witness:
  "drag_snapTargets exampleCtx = [] \<and> sig_width (drag_sig exampleCtx) = 20 \<and>
   proposedX exampleCtx (203, 100) + sig_width (drag_sig exampleCtx) = 70.3 \<and>
   sig_id (siblingSig 50) \<noteq> drag_id exampleCtx \<and>
   pageIndex (siblingSig 50) = drag_pageNum exampleCtx - 1 \<and>
   sig_x (hd (signatures (moveHandler exampleCtx (203, 100)
           (draggingState\<lparr>signatures := [newSig ''a'' ''png'' 1 2, siblingSig 50]\<rparr>)))) = 50"
proof -
  let ?st = "draggingState\<lparr>signatures := [newSig ''a'' ''png'' 1 2, siblingSig 50]\<rparr>"
  have 1: "drag_snapTargets exampleCtx = []" by (simp add: exampleCtx_def)
  have 2: "sig_width (drag_sig exampleCtx) = 20" by (simp add: exampleCtx_def newSig_def)
  have 3: "proposedX exampleCtx (203, 100) + sig_width (drag_sig exampleCtx) = 70.3"
    by (simp add: proposedX_def exampleCtx_def newSig_def)
  have 4: "signatures ?st = [newSig ''a'' ''png'' 1 2, siblingSig 50]" by simp
  have 5: "sig_id (newSig ''a'' ''png'' 1 2) = drag_id exampleCtx" "sig_width (newSig ''a'' ''png'' 1 2) = 20"
    by (simp_all add: exampleCtx_def newSig_def)
  have 6: "sig_id (siblingSig 50) \<noteq> drag_id exampleCtx"
    "pageIndex (siblingSig 50) = drag_pageNum exampleCtx - 1"
    "sig_x (siblingSig 50) = 50" "sig_width (siblingSig 50) = 20"
    by (simp_all add: exampleCtx_def siblingSig_def)
  from snap_resolves_to_50 [OF 1 2 3 4 5 6]
  have "sig_x (hd (signatures (moveHandler exampleCtx (203, 100) ?st))) = 50" by blast
  with 1 2 3 6 show ?thesis by blast
qed

subsection \<open>What the inner loop computes\<close>

lemma snapTargetLoop_none:
  "\<forall>t \<in> set ts. \<not> \<bar>cur - t\<bar> < minDiff acc \<Longrightarrow> snapTargetLoop ori cur off ts acc = acc"
  by (induction ts arbitrary: acc) (simp_all add: Let_def)

lemma snapTargetLoop_nearest:
  assumes "\<exists>t \<in> set ts. \<bar>cur - t\<bar> < minDiff acc"
  shows "\<exists>t \<in> set ts.
           snapped (snapTargetLoop ori cur off ts acc) \<and>
           nextPos (snapTargetLoop ori cur off ts acc) = t - off \<and>
           minDiff (snapTargetLoop ori cur off ts acc) = \<bar>cur - t\<bar> \<and>
           \<bar>cur - t\<bar> < minDiff acc \<and>
           (\<forall>u \<in> set ts. \<bar>cur - t\<bar> \<le> \<bar>cur - u\<bar>) \<and>
           activeLines (snapTargetLoop ori cur off ts acc) \<noteq> [] \<and>
           last (activeLines (snapTargetLoop ori cur off ts acc)) = \<lparr>orientation = ori, position = t\<rparr>"
  using assms
proof (induction ts arbitrary: acc)
  case Nil
  then show ?case by simp
next
  case (Cons a ts)
  show ?case
  proof (cases "\<bar>cur - a\<bar> < minDiff acc")
    case True
    let ?acc1 = "acc\<lparr>minDiff := \<bar>cur - a\<bar>, nextPos := a - off,
                     activeLines := activeLines acc @ [\<lparr>orientation = ori, position = a\<rparr>],
                     snapped := True\<rparr>"
    have step: "snapTargetLoop ori cur off (a # ts) acc = snapTargetLoop ori cur off ts ?acc1"
      using True by (simp add: Let_def)
    show ?thesis
    proof (cases "\<exists>t \<in> set ts. \<bar>cur - t\<bar> < minDiff ?acc1")
      case True
      from Cons.IH [OF True] obtain t where t: "t \<in> set ts"
        "snapped (snapTargetLoop ori cur off ts ?acc1)"
        "nextPos (snapTargetLoop ori cur off ts ?acc1) = t - off"
        "minDiff (snapTargetLoop ori cur off ts ?acc1) = \<bar>cur - t\<bar>"
        "\<bar>cur - t\<bar> < minDiff ?acc1"
        "\<forall>u \<in> set ts. \<bar>cur - t\<bar> \<le> \<bar>cur - u\<bar>"
        "activeLines (snapTargetLoop ori cur off ts ?acc1) \<noteq> []"
        "last (activeLines (snapTargetLoop ori cur off ts ?acc1)) = \<lparr>orientation = ori, position = t\<rparr>"
        by blast
      from t(5) \<open>\<bar>cur - a\<bar> < minDiff acc\<close> have "\<bar>cur - t\<bar> < minDiff acc" "\<bar>cur - t\<bar> \<le> \<bar>cur - a\<bar>"
        by simp_all
      with t show ?thesis unfolding step by (intro bexI [of _ t]) auto
    next
      case False
      then have "snapTargetLoop ori cur off ts ?acc1 = ?acc1"
        by (intro snapTargetLoop_none) blast
      moreover from False have "\<forall>u \<in> set ts. \<bar>cur - a\<bar> \<le> \<bar>cur - u\<bar>" by auto
      ultimately show ?thesis unfolding step using True by (intro bexI [of _ a]) auto
    qed
  next
    case False
    then have step: "snapTargetLoop ori cur off (a # ts) acc = snapTargetLoop ori cur off ts acc"
      by (simp add: Let_def)
    from False Cons.prems have ex: "\<exists>t \<in> set ts. \<bar>cur - t\<bar> < minDiff acc" by auto
    from Cons.IH [OF ex] obtain t where t: "t \<in> set ts"
        "snapped (snapTargetLoop ori cur off ts acc)"
        "nextPos (snapTargetLoop ori cur off ts acc) = t - off"
        "minDiff (snapTargetLoop ori cur off ts acc) = \<bar>cur - t\<bar>"
        "\<bar>cur - t\<bar> < minDiff acc"
        "\<forall>u \<in> set ts. \<bar>cur - t\<bar> \<le> \<bar>cur - u\<bar>"
        "activeLines (snapTargetLoop ori cur off ts acc) \<noteq> []"
        "last (activeLines (snapTargetLoop ori cur off ts acc)) = \<lparr>orientation = ori, position = t\<rparr>"
      by blast
    from t(5) False have "\<bar>cur - t\<bar> \<le> \<bar>cur - a\<bar>" by simp
    with t show ?thesis unfolding step by (intro bexI [of _ t]) auto
  qed
qed

subsection \<open>What the outer loop computes\<close>

lemma snapEdgeLoop_skip:
  assumes "\<not> snapped acc"
    and "\<forall>off \<in> set pre. \<forall>t \<in> set ts. \<not> \<bar>nextPos acc + off - t\<bar> < minDiff acc"
  shows "snapEdgeLoop ori (pre @ rest) ts acc = snapEdgeLoop ori rest ts acc"
  using assms
proof (induction pre)
  case Nil
  then show ?case by simp
next
  case (Cons off pre)
  have "snapTargetLoop ori (nextPos acc + off) off ts acc = acc"
    using Cons.prems(2) by (intro snapTargetLoop_none) simp
  with Cons show ?case by (simp add: Let_def)
qed

lemma snapEdgeLoop_hit:
  assumes "\<exists>t \<in> set ts. \<bar>nextPos acc + off - t\<bar> < minDiff acc"
  shows "snapEdgeLoop ori (off # post) ts acc = snapTargetLoop ori (nextPos acc + off) off ts acc"
  using snapTargetLoop_nearest [OF assms, of ori off] by (auto simp: Let_def)

text \<open>No edge has a candidate within the threshold: nothing moves, no line is added.\<close>

lemma snapAxis_no_snap:
  assumes "\<forall>off \<in> {0, w / 2, w}. \<forall>t \<in> set ts. \<not> \<bar>p + off - t\<bar> < SNAP_THRESHOLD"
  shows "snapAxis ori p ls w ts =
           \<lparr>minDiff = SNAP_THRESHOLD, nextPos = p, activeLines = ls, snapped = False\<rparr>"
proof -
  let ?acc = "\<lparr>minDiff = SNAP_THRESHOLD, nextPos = p, activeLines = ls, snapped = False\<rparr>"
  have "snapEdgeLoop ori ([0, w / 2, w] @ []) ts ?acc = snapEdgeLoop ori [] ts ?acc"
    using assms by (intro snapEdgeLoop_skip) simp_all
  then show ?thesis by (simp add: snapAxis_def)
qed

text \<open>
  The first edge, in the order leading, centre, trailing, that has a candidate within the
  threshold decides: the position is shifted so that this edge lies on its nearest
  candidate, and the last line added is at that candidate.
\<close>

lemma snapAxis_first_edge:
  assumes "[0, w / 2, w] = pre @ off # post"
    and "\<forall>o' \<in> set pre. \<forall>t \<in> set ts. \<not> \<bar>p + o' - t\<bar> < SNAP_THRESHOLD"
    and "\<exists>t \<in> set ts. \<bar>p + off - t\<bar> < SNAP_THRESHOLD"
  shows "\<exists>t \<in> set ts.
           snapped (snapAxis ori p ls w ts) \<and>
           nextPos (snapAxis ori p ls w ts) + off = t \<and>
           \<bar>p + off - t\<bar> < SNAP_THRESHOLD \<and>
           (\<forall>u \<in> set ts. \<bar>p + off - t\<bar> \<le> \<bar>p + off - u\<bar>) \<and>
           last (activeLines (snapAxis ori p ls w ts)) = \<lparr>orientation = ori, position = t\<rparr>"
proof -
  let ?acc = "\<lparr>minDiff = SNAP_THRESHOLD, nextPos = p, activeLines = ls, snapped = False\<rparr>"
  have "snapAxis ori p ls w ts = snapEdgeLoop ori (pre @ off # post) ts ?acc"
    by (simp add: snapAxis_def assms(1))
  also have "\<dots> = snapEdgeLoop ori (off # post) ts ?acc"
    using assms(2) by (intro snapEdgeLoop_skip) simp_all
  also have "\<dots> = snapTargetLoop ori (p + off) off ts ?acc"
    using snapEdgeLoop_hit [of ts ?acc off ori post] assms(3) by simp
  finally have eq: "snapAxis ori p ls w ts = snapTargetLoop ori (p + off) off ts ?acc" .
  from snapTargetLoop_nearest [of ts "p + off" ?acc ori off] assms(3)
  show ?thesis unfolding eq by fastforce
qed

subsection \<open>Two candidates within the threshold of one edge\<close>

lemma snap_two_improvements:
  "snapAxis Vertical (503 / 10) [] 20 [0, 50, 100, 251 / 5, 301 / 5, 351 / 5] =
     \<lparr>minDiff = 1 / 10, nextPos = 251 / 5,
      activeLines = [\<lparr>orientation = Vertical, position = 50\<rparr>,
                     \<lparr>orientation = Vertical, position = 251 / 5\<rparr>],
      snapped = True\<rparr>"
  by (simp add: snapAxis_def SNAP_THRESHOLD_def)

lemma snap_bottom_edge_at_50:
  "snapAxis Horizontal 40 ls 10 [0, 50, 100, 70, 75, 80] =
     \<lparr>minDiff = 0, nextPos = 40,
      activeLines = ls @ [\<lparr>orientation = Horizontal, position = 50\<rparr>], snapped = True\<rparr>"
  by (simp add: snapAxis_def SNAP_THRESHOLD_def)

text \<open>
  Claim C8, at an input where the code departs from it. The dragged element (width 20) is
  proposed at \<open>x = 50.3\<close>; a sibling on the page has its left edge at 50.2. The leading
  edge meets the candidate 50 (distance 0.3) and later the nearer candidate 50.2
  (distance 0.1). The element ends aligned with 50.2 only, as the claim says, but the move
  event emits two vertical guide lines, at 50 and at 50.2, where the claim has one.
\<close>

theorem two_guide_lines_on_one_axis:
  "snapLines (moveHandler exampleCtx (203, 100)
       (draggingState\<lparr>signatures := [newSig ''a'' ''png'' 1 2, siblingSig (251 / 5)]\<rparr>)) =
     [\<lparr>orientation = Vertical, position = 50\<rparr>,
      \<lparr>orientation = Vertical, position = 251 / 5\<rparr>,
      \<lparr>orientation = Horizontal, position = 50\<rparr>] \<and>
   sig_x (hd (signatures (moveHandler exampleCtx (203, 100)
       (draggingState\<lparr>signatures := [newSig ''a'' ''png'' 1 2, siblingSig (251 / 5)]\<rparr>)))) = 251 / 5"
proof -
  let ?ss = "[newSig ''a'' ''png'' 1 2, siblingSig (251 / 5)]"
  have v: "vSnapPoints exampleCtx ?ss = [0, 50, 100, 251 / 5, 301 / 5, 351 / 5]"
    by (simp add: vSnapPoints_def exampleCtx_def newSig_def siblingSig_def)
  have h: "hSnapPoints exampleCtx ?ss = [0, 50, 100, 70, 75, 80]"
    by (simp add: hSnapPoints_def exampleCtx_def newSig_def siblingSig_def)
  have p: "proposedX exampleCtx (203, 100) = 503 / 10" "proposedY exampleCtx (203, 100) = 40"
    by (simp_all add: proposedX_def proposedY_def example_hPct) (simp_all add: exampleCtx_def newSig_def)
  have x: "dragSnapX exampleCtx (203, 100) ?ss =
     \<lparr>minDiff = 1 / 10, nextPos = 251 / 5,
      activeLines = [\<lparr>orientation = Vertical, position = 50\<rparr>,
                     \<lparr>orientation = Vertical, position = 251 / 5\<rparr>],
      snapped = True\<rparr>"
    by (simp add: dragSnapX_def v p example_ctx_fields snap_two_improvements)
  have y: "activeLines (dragSnapY exampleCtx (203, 100) ?ss) =
     [\<lparr>orientation = Vertical, position = 50\<rparr>,
      \<lparr>orientation = Vertical, position = 251 / 5\<rparr>,
      \<lparr>orientation = Horizontal, position = 50\<rparr>]"
    by (simp add: dragSnapY_def h p x example_hPct snap_bottom_edge_at_50)
  have w: "sig_id (newSig ''a'' ''png'' 1 2) = ''a''" "sig_width (newSig ''a'' ''png'' 1 2) = 20"
    by (simp_all add: newSig_def)
  show ?thesis
    by (simp add: moveHandler_def Let_def x y example_ctx_fields w)
qed

subsection \<open>The clamp after the snap\<close>

lemma snap_left_edge_past_the_clamp:
  "snapAxis Vertical 80 [] 20 [0, 50, 100, 803 / 10, 1803 / 20, 100] =
     \<lparr>minDiff = 3 / 10, nextPos = 803 / 10,
      activeLines = [\<lparr>orientation = Vertical, position = 803 / 10\<rparr>], snapped = True\<rparr>"
  by (simp add: snapAxis_def SNAP_THRESHOLD_def)

lemma snap_bottom_edge_at_50_again:
  "snapAxis Horizontal 40 ls 10 [0, 50, 100, 70, 2997 / 40, 1597 / 20] =
     \<lparr>minDiff = 0, nextPos = 40,
      activeLines = ls @ [\<lparr>orientation = Horizontal, position = 50\<rparr>], snapped = True\<rparr>"
  by (simp add: snapAxis_def SNAP_THRESHOLD_def)

text \<open>
  The position is clamped to the page after the snap, so a guide line can be emitted at a
  candidate the element does not end on. A sibling has its left edge at 80.3 (and width 19.7); the dragged
  element, of width 20, is proposed at \<open>x = 80\<close>, the largest value the clamp allows. Its
  leading edge snaps to 80.3 and a guide line is emitted there, but the final clamp puts
  the element back at \<open>x = 80\<close>, off the guide.
\<close>

lemma guide_line_off_the_clamped_element:
  "snapLines (moveHandler exampleCtx (600, 100)
       (draggingState\<lparr>signatures := [newSig ''a'' ''png'' 1 2,
                                        (siblingSig (803 / 10))\<lparr>sig_width := 197 / 10\<rparr>]\<rparr>)) =
     [\<lparr>orientation = Vertical, position = 803 / 10\<rparr>,
      \<lparr>orientation = Horizontal, position = 50\<rparr>] \<and>
   sig_x (hd (signatures (moveHandler exampleCtx (600, 100)
       (draggingState\<lparr>signatures := [newSig ''a'' ''png'' 1 2,
                                        (siblingSig (803 / 10))\<lparr>sig_width := 197 / 10\<rparr>]\<rparr>)))) = 80"
proof -
  let ?ss = "[newSig ''a'' ''png'' 1 2, (siblingSig (803 / 10))\<lparr>sig_width := 197 / 10\<rparr>]"
  have v: "vSnapPoints exampleCtx ?ss = [0, 50, 100, 803 / 10, 1803 / 20, 100]"
    by (simp add: vSnapPoints_def exampleCtx_def newSig_def siblingSig_def)
  have h: "hSnapPoints exampleCtx ?ss = [0, 50, 100, 70, 2997 / 40, 1597 / 20]"
    by (simp add: hSnapPoints_def exampleCtx_def newSig_def siblingSig_def)
  have x: "dragSnapX exampleCtx (600, 100) ?ss =
     \<lparr>minDiff = 3 / 10, nextPos = 803 / 10,
      activeLines = [\<lparr>orientation = Vertical, position = 803 / 10\<rparr>], snapped = True\<rparr>"
    by (simp add: dragSnapX_def v example_proposed example_ctx_fields snap_left_edge_past_the_clamp)
  have y: "dragSnapY exampleCtx (600, 100) ?ss =
     \<lparr>minDiff = 0, nextPos = 40,
      activeLines = [\<lparr>orientation = Vertical, position = 803 / 10\<rparr>,
                     \<lparr>orientation = Horizontal, position = 50\<rparr>], snapped = True\<rparr>"
    by (simp add: dragSnapY_def h x example_proposed example_hPct snap_bottom_edge_at_50_again)
  have w: "sig_id (newSig ''a'' ''png'' 1 2) = ''a''" "sig_width (newSig ''a'' ''png'' 1 2) = 20"
    by (simp_all add: newSig_def)
  show ?thesis
    by (simp add: moveHandler_def Let_def x y example_ctx_fields w)
qed

section \<open>The page invariant under drag and resize\<close>


















subsection \<open>Resizes of the example signature with corner handles\<close>









section \<open>Document export of strokes\<close>

declare strokeLinesFrom.simps [simp del]

lemma strokeLinesFrom_map:
  "strokeLinesFrom pw ph s c j =
     map (\<lambda>k. \<lparr>line_start = (pt_x (points s ! k) * pw, ph - pt_y (points s ! k) * ph),
               line_end = (pt_x (points s ! (k + 1)) * pw, ph - pt_y (points s ! (k + 1)) * ph),
               line_thickness = stroke_width s, line_color = c, line_opacity = 1\<rparr>)
       [j ..< length (points s) - 1]"
proof (induction pw ph s c j rule: strokeLinesFrom.induct)
  case (1 pw ph s c j)
  show ?case
  proof (cases "int j < int (length (points s)) - 1")
    case True
    then have "j < length (points s) - Suc 0" by simp
    then have u: "[j ..< length (points s) - Suc 0] = j # [Suc j ..< length (points s) - Suc 0]"
      by (rule upt_conv_Cons)
    show ?thesis
      using "1.IH" [OF True refl refl] True
      by (subst strokeLinesFrom.simps) (simp add: Let_def u)
  next
    case False
    then have "\<not> j < length (points s) - 1" by simp
    with False show ?thesis
      by (subst strokeLinesFrom.simps) simp
  qed
qed

text \<open>A page's lines are those of its strokes, in drawing order; a page without an entry
  in the drawings draws nothing.\<close>

lemma burnPageDrawings_strokes:
  "burnPageDrawings ds i pageWidth pageHeight =
     (case ds i of None \<Rightarrow> [] | Some pageStrokes \<Rightarrow> concat (map (drawStroke pageWidth pageHeight) pageStrokes))"
  by (simp add: burnPageDrawings_def split: option.splits)

text \<open>
  Claim C5. For a stroke of at least two points, document export draws one line per pair
  of consecutive points; the line number \<open>j\<close> goes from the image of point \<open>j\<close> to the
  image of point \<open>j + 1\<close>, where a normalised point \<open>(x, y)\<close> has the image
  \<open>(x * pageWidth, pageHeight - y * pageHeight)\<close>, and its thickness is the stroke's width,
  unscaled. In particular the point \<open>(0.5, 0)\<close> has the image \<open>(0.5 * pageWidth, pageHeight)\<close>.
\<close>

theorem stroke_points_to_pdf_space:
  assumes "2 \<le> length (points stroke)"
  shows "length (drawStroke pageWidth pageHeight stroke) = length (points stroke) - 1 \<and>
         (\<forall>j < length (points stroke) - 1.
            line_start (drawStroke pageWidth pageHeight stroke ! j) =
              (pt_x (points stroke ! j) * pageWidth,
               pageHeight - pt_y (points stroke ! j) * pageHeight) \<and>
            line_end (drawStroke pageWidth pageHeight stroke ! j) =
              (pt_x (points stroke ! (j + 1)) * pageWidth,
               pageHeight - pt_y (points stroke ! (j + 1)) * pageHeight) \<and>
            line_thickness (drawStroke pageWidth pageHeight stroke ! j) = stroke_width stroke \<and>
            (points stroke ! j = \<lparr>pt_x = 0.5, pt_y = 0.0\<rparr> \<longrightarrow>
               line_start (drawStroke pageWidth pageHeight stroke ! j) = (0.5 * pageWidth, pageHeight)))"
  using assms by (simp add: drawStroke_def strokeLinesFrom_map)

theorem stroke_points_to_pdf_space_witness:
  "2 \<le> length (points \<lparr>points = [\<lparr>pt_x = 0.5, pt_y = 0.0\<rparr>, \<lparr>pt_x = 1, pt_y = 1\<rparr>],
                        color = ''#ff0000'', stroke_width = 3\<rparr>) \<and>
   length (drawStroke 600 800 \<lparr>points = [\<lparr>pt_x = 0.5, pt_y = 0.0\<rparr>, \<lparr>pt_x = 1, pt_y = 1\<rparr>],
                                color = ''#ff0000'', stroke_width = 3\<rparr>) = 1 \<and>
   line_start (drawStroke 600 800 \<lparr>points = [\<lparr>pt_x = 0.5, pt_y = 0.0\<rparr>, \<lparr>pt_x = 1, pt_y = 1\<rparr>],
                                    color = ''#ff0000'', stroke_width = 3\<rparr> ! 0) = (300, 800) \<and>
   line_end (drawStroke 600 800 \<lparr>points = [\<lparr>pt_x = 0.5, pt_y = 0.0\<rparr>, \<lparr>pt_x = 1, pt_y = 1\<rparr>],
                                  color = ''#ff0000'', stroke_width = 3\<rparr> ! 0) = (600, 0) \<and>
   line_thickness (drawStroke 600 800 \<lparr>points = [\<lparr>pt_x = 0.5, pt_y = 0.0\<rparr>, \<lparr>pt_x = 1, pt_y = 1\<rparr>],
                                        color = ''#ff0000'', stroke_width = 3\<rparr> ! 0) = 3"
proof -
  let ?s = "\<lparr>points = [\<lparr>pt_x = 0.5, pt_y = 0.0\<rparr>, \<lparr>pt_x = 1, pt_y = 1\<rparr>],
             color = ''#ff0000'', stroke_width = 3\<rparr>"
  have l: "2 \<le> length (points ?s)" by simp
  from stroke_points_to_pdf_space [OF l, of 600 800] show ?thesis by simp
qed

section \<open>Rotation in the two exports\<close>
















section \<open>History entries and the store\<close>

text \<open>A step never writes to an allocated address, and only allocates upwards.\<close>

lemma stepR_store:
  "nextAddr (store st) \<le> nextAddr (store (stepR stringify step st))"
  "a < nextAddr (store st) \<Longrightarrow>
     sigArrays (store (stepR stringify step st)) a = sigArrays (store st) a"
  "a < nextAddr (store st) \<Longrightarrow>
     drawObjects (store (stepR stringify step st)) a = drawObjects (store st) a"
  by (cases step;
      simp add: setSignaturesR_def setDrawingsR_def saveToHistoryR_def undoR_def redoR_def
        snapshotStartR_def commitR_def Let_def split: option.splits)+

lemma stepR_derefEntry:
  "entryAllocated (store st) e \<Longrightarrow>
   derefEntry (store (stepR stringify step st)) e = derefEntry (store st) e"
  by (simp add: entryAllocated_def derefEntry_def sigsAt_def drawsAt_def stepR_store)

lemma stepR_entryAllocated:
  "entryAllocated (store st) e \<Longrightarrow> entryAllocated (store (stepR stringify step st)) e"
  using stepR_store(1) [of st stringify step] by (simp add: entryAllocated_def)


lemma wellFormed_setSignaturesR: "wellFormed st \<Longrightarrow> wellFormed (setSignaturesR f st)"
  by (auto simp: wellFormed_def entryAllocated_def setSignaturesR_def Let_def list_all_iff
      split: option.splits)

lemma wellFormed_setDrawingsR: "wellFormed st \<Longrightarrow> wellFormed (setDrawingsR g st)"
  by (auto simp: wellFormed_def entryAllocated_def setDrawingsR_def Let_def list_all_iff
      split: option.splits)

lemma wellFormed_saveToHistoryR: "wellFormed st \<Longrightarrow> wellFormed (saveToHistoryR st)"
  by (auto simp: wellFormed_def entryAllocated_def saveToHistoryR_def list_all_iff
      split: option.splits)

lemma wellFormed_undoR: "wellFormed st \<Longrightarrow> wellFormed (undoR st)"
proof (cases "pastR st = []")
  case True
  then show "wellFormed st \<Longrightarrow> wellFormed (undoR st)" by (simp add: undoR_def)
next
  case False
  assume wf: "wellFormed st"
  from False have "last (pastR st) \<in> set (pastR st)" by simp
  with wf have "entryAllocated (store st) (last (pastR st))"
    by (simp add: wellFormed_def list_all_iff)
  moreover have "set (butlast (pastR st)) \<subseteq> set (pastR st)"
    by (auto dest: in_set_butlastD)
  ultimately show "wellFormed (undoR st)"
    using wf False
    by (auto simp: wellFormed_def entryAllocated_def undoR_def Let_def list_all_iff
        split: option.splits)
qed

lemma wellFormed_redoR: "wellFormed st \<Longrightarrow> wellFormed (redoR st)"
proof (cases "futureR st = []")
  case True
  then show "wellFormed st \<Longrightarrow> wellFormed (redoR st)" by (simp add: redoR_def)
next
  case False
  assume wf: "wellFormed st"
  from False have "hd (futureR st) \<in> set (futureR st)" by simp
  with wf have "entryAllocated (store st) (hd (futureR st))"
    by (simp add: wellFormed_def list_all_iff)
  moreover have "set (tl (futureR st)) \<subseteq> set (futureR st)"
    using False by (cases "futureR st") auto
  ultimately show "wellFormed (redoR st)"
    using wf False
    by (auto simp: wellFormed_def entryAllocated_def redoR_def Let_def list_all_iff
        split: option.splits)
qed

lemma wellFormed_snapshotStartR: "wellFormed st \<Longrightarrow> wellFormed (snapshotStartR st)"
  by (auto simp: wellFormed_def entryAllocated_def snapshotStartR_def split: option.splits)

lemma wellFormed_commitR: "wellFormed st \<Longrightarrow> wellFormed (commitR stringify st)"
  by (auto simp: wellFormed_def entryAllocated_def commitR_def Let_def list_all_iff
      split: option.splits)

lemma wellFormed_stepR: "wellFormed st \<Longrightarrow> wellFormed (stepR stringify step st)"
  by (cases step)
    (simp_all add: wellFormed_setSignaturesR wellFormed_setDrawingsR wellFormed_saveToHistoryR
      wellFormed_undoR wellFormed_redoR wellFormed_snapshotStartR wellFormed_commitR)

lemma runR_Cons: "runR stringify (step # steps) st = runR stringify steps (stepR stringify step st)"
  by (simp add: runR_def)

lemma wellFormed_runR: "wellFormed st \<Longrightarrow> wellFormed (runR stringify steps st)"
proof (induction steps arbitrary: st)
  case Nil
  then show ?case by (simp add: runR_def)
next
  case (Cons step steps)
  then show ?case by (simp add: runR_Cons wellFormed_stepR)
qed

lemma runR_derefEntry:
  "entryAllocated (store st) e \<Longrightarrow>
   derefEntry (store (runR stringify steps st)) e = derefEntry (store st) e"
proof (induction steps arbitrary: st)
  case Nil
  then show ?case by (simp add: runR_def)
next
  case (Cons step steps)
  from Cons.IH [OF stepR_entryAllocated [OF Cons.prems]]
  show ?case by (simp add: runR_Cons stepR_derefEntry [OF Cons.prems])
qed

subsection \<open>The reference model denotes the value model\<close>

lemma stepR_map_derefEntry:
  "list_all (entryAllocated (store st)) es \<Longrightarrow>
   map (derefEntry (store (stepR stringify step st))) es = map (derefEntry (store st)) es"
  by (induction es) (simp_all add: stepR_derefEntry)

lemma abstracts_setSignaturesR:
  assumes "abstracts r a" "wellFormed r"
  shows "abstracts (setSignaturesR f r) (a\<lparr>signatures := f (signatures a)\<rparr>)"
proof -
  note d = stepR_map_derefEntry [of r _ stringify "SetSignatures f", simplified]
  note e = stepR_derefEntry [of r _ stringify "SetSignatures f", simplified]
  from assms(2) have wf: "list_all (entryAllocated (store r)) (pastR r)"
    "list_all (entryAllocated (store r)) (futureR r)"
    "drawingsR r < nextAddr (store r)"
    "\<And>x. historyStartR r = Some x \<Longrightarrow> entryAllocated (store r) x"
    by (auto simp: wellFormed_def)
  have p: "pastR (setSignaturesR f r) = pastR r" "futureR (setSignaturesR f r) = futureR r"
    "historyStartR (setSignaturesR f r) = historyStartR r" "drawingsR (setSignaturesR f r) = drawingsR r"
    by (simp_all add: setSignaturesR_def Let_def)
  have l: "sigsAt (store (setSignaturesR f r)) (signaturesR (setSignaturesR f r)) =
      f (sigsAt (store r) (signaturesR r))"
    by (simp add: setSignaturesR_def Let_def sigsAt_def)
  have dr: "drawsAt (store (setSignaturesR f r)) (drawingsR r) = drawsAt (store r) (drawingsR r)"
    by (simp add: setSignaturesR_def Let_def drawsAt_def)
  have hs: "map_option (derefEntry (store (setSignaturesR f r))) (historyStartR r) =
      map_option (derefEntry (store r)) (historyStartR r)"
    using wf(4) by (cases "historyStartR r") (simp_all add: e)
  from assms(1) show ?thesis
    by (simp add: abstracts_def p l dr hs d [OF wf(1)] d [OF wf(2)])
qed


lemma abstracts_setDrawingsR:
  assumes "abstracts r a" "wellFormed r"
  shows "abstracts (setDrawingsR g r) (a\<lparr>drawings := g (drawings a)\<rparr>)"
proof -
  note d = stepR_map_derefEntry [of r _ stringify "SetDrawings g", simplified]
  note e = stepR_derefEntry [of r _ stringify "SetDrawings g", simplified]
  from assms(2) have wf: "list_all (entryAllocated (store r)) (pastR r)"
    "list_all (entryAllocated (store r)) (futureR r)"
    "signaturesR r < nextAddr (store r)"
    "\<And>x. historyStartR r = Some x \<Longrightarrow> entryAllocated (store r) x"
    by (auto simp: wellFormed_def)
  have p: "pastR (setDrawingsR g r) = pastR r" "futureR (setDrawingsR g r) = futureR r"
    "historyStartR (setDrawingsR g r) = historyStartR r" "signaturesR (setDrawingsR g r) = signaturesR r"
    by (simp_all add: setDrawingsR_def Let_def)
  have l: "drawsAt (store (setDrawingsR g r)) (drawingsR (setDrawingsR g r)) =
      g (drawsAt (store r) (drawingsR r))"
    by (simp add: setDrawingsR_def Let_def drawsAt_def)
  have dr: "sigsAt (store (setDrawingsR g r)) (signaturesR r) = sigsAt (store r) (signaturesR r)"
    by (simp add: setDrawingsR_def Let_def sigsAt_def)
  have hs: "map_option (derefEntry (store (setDrawingsR g r))) (historyStartR r) =
      map_option (derefEntry (store r)) (historyStartR r)"
    using wf(4) by (cases "historyStartR r") (simp_all add: e)
  from assms(1) show ?thesis
    by (simp add: abstracts_def p l dr hs d [OF wf(1)] d [OF wf(2)])
qed

lemma abstracts_saveToHistoryR:
  "abstracts r a \<Longrightarrow> abstracts (saveToHistoryR r) (saveToHistory a)"
  by (simp add: abstracts_def saveToHistoryR_def saveToHistory_def derefEntry_def)

lemma abstracts_undoR:
  assumes "abstracts r a"
  shows "abstracts (undoR r) (undo a)"
proof (cases "pastR r = []")
  case True
  with assms show ?thesis by (simp add: abstracts_def undoR_def undo_def)
next
  case False
  with assms have ne: "past (history a) \<noteq> []" by (simp add: abstracts_def)
  from assms False show ?thesis
    by (simp add: abstracts_def undoR_def undo_def Let_def last_map map_butlast derefEntry_def)
qed

lemma abstracts_redoR:
  assumes "abstracts r a"
  shows "abstracts (redoR r) (redo a)"
proof (cases "futureR r = []")
  case True
  with assms show ?thesis by (simp add: abstracts_def redoR_def redo_def)
next
  case False
  from assms False show ?thesis
    by (simp add: abstracts_def redoR_def redo_def Let_def hd_map map_tl derefEntry_def)
qed

lemma abstracts_snapshotStartR:
  "abstracts r a \<Longrightarrow>
   abstracts (snapshotStartR r)
     (a\<lparr>historyStartRef := Some \<lparr>sigs = signatures a, draws = drawings a\<rparr>\<rparr>)"
  by (simp add: abstracts_def snapshotStartR_def derefEntry_def)

lemma abstracts_commitR:
  assumes "abstracts r a"
  shows "abstracts (commitR stringify r) (a\<lparr>history := commitHistory stringify a\<rparr>)"
proof (cases "historyStartR r")
  case None
  with assms show ?thesis by (simp add: abstracts_def commitR_def commitHistory_def)
next
  case (Some e)
  with assms show ?thesis
    by (simp add: abstracts_def commitR_def commitHistory_def Let_def derefEntry_def)
qed

lemma abstracts_stepR:
  "abstracts r a \<Longrightarrow> wellFormed r \<Longrightarrow> abstracts (stepR stringify step r) (stepV stringify step a)"
  by (cases step)
    (simp_all add: abstracts_setSignaturesR abstracts_setDrawingsR abstracts_saveToHistoryR
      abstracts_undoR abstracts_redoR abstracts_snapshotStartR abstracts_commitR)

lemma abstracts_runR:
  "abstracts r a \<Longrightarrow> wellFormed r \<Longrightarrow>
   abstracts (runR stringify steps r) (foldl (\<lambda>s step. stepV stringify step s) a steps)"
proof (induction steps arbitrary: r a)
  case Nil
  then show ?case by (simp add: runR_def)
next
  case (Cons step steps)
  from Cons.IH [OF abstracts_stepR [OF Cons.prems] wellFormed_stepR [OF Cons.prems(2)]]
  show ?case by (simp add: runR_Cons)
qed

text \<open>The handlers of the value model are such sequences of steps.\<close>

lemma handlers_as_steps:
  "deleteSignature i a =
     (if selectedSigId a = Some i
      then (foldl (\<lambda>s step. stepV stringify step s) a
              [SaveToHistory, SetSignatures (filter (\<lambda>s. sig_id s \<noteq> i))])\<lparr>selectedSigId := None\<rparr>
      else foldl (\<lambda>s step. stepV stringify step s) a
              [SaveToHistory, SetSignatures (filter (\<lambda>s. sig_id s \<noteq> i))])"
  "handleAddStroke stroke a =
     foldl (\<lambda>s step. stepV stringify step s) a
       [SaveToHistory,
        SetDrawings (\<lambda>prev. prev(pageNum a - 1 \<mapsto>
                       (case prev (pageNum a - 1) of None \<Rightarrow> [] | Some ss \<Rightarrow> ss) @ [stroke]))]"
  "handleClearPage a =
     foldl (\<lambda>s step. stepV stringify step s) a
       [SaveToHistory, SetDrawings (\<lambda>prev. prev(pageNum a - 1 \<mapsto> []))]"
  "upHandler stringify a = (stepV stringify Commit a)\<lparr>snapLines := []\<rparr>"
  by (simp_all add: deleteSignature_def handleAddStroke_def handleClearPage_def upHandler_def
      Let_def saveToHistory_def)


subsection \<open>Entries share storage with the live state, and nothing writes to it\<close>

lemma wellFormed_oneSigRefState: "wellFormed oneSigRefState"
  by (simp add: wellFormed_def entryAllocated_def oneSigRefState_eq)

text \<open>
  Claim C9 as stated fails: recording makes no copy. After \<^verbatim>\<open>saveToHistory\<close> the new
  entry holds the very array and object that the live state holds, and nothing was
  allocated.
\<close>

theorem history_entry_aliases_live_state:
  "sigsRef (last (pastR (saveToHistoryR oneSigRefState))) = signaturesR (saveToHistoryR oneSigRefState) \<and>
   drawsRef (last (pastR (saveToHistoryR oneSigRefState))) = drawingsR (saveToHistoryR oneSigRefState) \<and>
   nextAddr (store (saveToHistoryR oneSigRefState)) = nextAddr (store oneSigRefState)"
  by (simp add: saveToHistoryR_def oneSigRefState_eq)

text \<open>
  Claim C9, amended. A history entry is not a copy: it holds the references of the live
  signature array and drawings object at the moment of recording. Every later update of
  the live state (each step of every handler, undo and redo included) allocates a new
  array or object or only moves references, and writes to no allocated address; so the
  contents of every entry in the past or future stack stay what they were when recorded.
\<close>

theorem recorded_entries_never_change:
  "store (saveToHistoryR st) = store st \<and>
   last (pastR (saveToHistoryR st)) = \<lparr>sigsRef = signaturesR st, drawsRef = drawingsR st\<rparr> \<and>
   (wellFormed st \<longrightarrow>
      wellFormed (runR stringify steps st) \<and>
      (\<forall>e \<in> set (pastR st) \<union> set (futureR st).
         derefEntry (store (runR stringify steps st)) e = derefEntry (store st) e))"
proof (intro conjI impI ballI)
  show "store (saveToHistoryR st) = store st" by (simp add: saveToHistoryR_def)
  show "last (pastR (saveToHistoryR st)) = \<lparr>sigsRef = signaturesR st, drawsRef = drawingsR st\<rparr>"
    by (simp add: saveToHistoryR_def)
next
  assume "wellFormed st"
  then show "wellFormed (runR stringify steps st)" by (rule wellFormed_runR)
next
  fix e assume wf: "wellFormed st" and e: "e \<in> set (pastR st) \<union> set (futureR st)"
  then have "entryAllocated (store st) e" by (auto simp: wellFormed_def list_all_iff)
  then show "derefEntry (store (runR stringify steps st)) e = derefEntry (store st) e"
    by (rule runR_derefEntry)
qed

theorem recorded_entries_never_change_witness:
  "wellFormed (saveToHistoryR oneSigRefState) \<and>
   pastR (saveToHistoryR oneSigRefState) = [\<lparr>sigsRef = 0, drawsRef = 1\<rparr>, \<lparr>sigsRef = 2, drawsRef = 1\<rparr>] \<and>
   sigsAt (store (runR (\<lambda>ss. ss) [SetSignatures (filter (\<lambda>s. sig_id s \<noteq> ''a''))]
                    (saveToHistoryR oneSigRefState)))
          (signaturesR (runR (\<lambda>ss. ss) [SetSignatures (filter (\<lambda>s. sig_id s \<noteq> ''a''))]
                          (saveToHistoryR oneSigRefState))) = [] \<and>
   derefEntry (store (runR (\<lambda>ss. ss) [SetSignatures (filter (\<lambda>s. sig_id s \<noteq> ''a''))]
                        (saveToHistoryR oneSigRefState)))
     \<lparr>sigsRef = 2, drawsRef = 1\<rparr> =
     \<lparr>sigs = [newSig ''a'' ''png'' 1 2], draws = Map.empty\<rparr> \<and>
   derefEntry (store (runR (\<lambda>ss. ss) [SetSignatures (filter (\<lambda>s. sig_id s \<noteq> ''a''))]
                        (saveToHistoryR oneSigRefState)))
     \<lparr>sigsRef = 0, drawsRef = 1\<rparr> =
     \<lparr>sigs = [], draws = Map.empty\<rparr>"
proof -
  let ?st = "saveToHistoryR oneSigRefState"
  let ?steps = "[SetSignatures (filter (\<lambda>s. sig_id s \<noteq> ''a''))]"
  have wf: "wellFormed ?st" by (rule wellFormed_saveToHistoryR [OF wellFormed_oneSigRefState])
  have p: "pastR ?st = [\<lparr>sigsRef = 0, drawsRef = 1\<rparr>, \<lparr>sigsRef = 2, drawsRef = 1\<rparr>]"
    by (simp add: saveToHistoryR_def oneSigRefState_eq)
  have live: "sigsAt (store (runR (\<lambda>ss. ss) ?steps ?st)) (signaturesR (runR (\<lambda>ss. ss) ?steps ?st)) = []"
    by (simp add: runR_def setSignaturesR_def saveToHistoryR_def oneSigRefState_eq sigsAt_def
        Let_def newSig_def)
  have d: "derefEntry (store ?st) \<lparr>sigsRef = 2, drawsRef = 1\<rparr> =
      \<lparr>sigs = [newSig ''a'' ''png'' 1 2], draws = Map.empty\<rparr>"
    "derefEntry (store ?st) \<lparr>sigsRef = 0, drawsRef = 1\<rparr> = \<lparr>sigs = [], draws = Map.empty\<rparr>"
    by (simp_all add: derefEntry_def sigsAt_def drawsAt_def saveToHistoryR_def oneSigRefState_eq)
  note th = recorded_entries_never_change [of ?st "\<lambda>ss. ss" ?steps, THEN conjunct2, THEN conjunct2,
      rule_format, OF wf, THEN conjunct2, rule_format]
  have "derefEntry (store (runR (\<lambda>ss. ss) ?steps ?st)) \<lparr>sigsRef = 2, drawsRef = 1\<rparr> =
      derefEntry (store ?st) \<lparr>sigsRef = 2, drawsRef = 1\<rparr>"
    by (rule th) (simp add: p)
  moreover have "derefEntry (store (runR (\<lambda>ss. ss) ?steps ?st)) \<lparr>sigsRef = 0, drawsRef = 1\<rparr> =
      derefEntry (store ?st) \<lparr>sigsRef = 0, drawsRef = 1\<rparr>"
    by (rule th) (simp add: p)
  ultimately show ?thesis using wf p live d by simp
qed

subsection \<open>The example reference state and the commit at pointer-up\<close>

lemma abstracts_oneSigRefState: "abstracts oneSigRefState oneSigState"
  by (simp add: abstracts_def oneSigRefState_eq oneSigState_eq initialState_def sigsAt_def
      drawsAt_def derefEntry_def)

text \<open>The snapshot taken at pointer-down holds the live references, and a commit pushes
  that very snapshot, again without a copy and without allocating.\<close>

lemma snapshot_and_commit_share:
  "historyStartR (snapshotStartR st) = Some \<lparr>sigsRef = signaturesR st, drawsRef = drawingsR st\<rparr>"
  "store (commitR stringify st) = store st"
  "historyStartR st = Some e \<Longrightarrow>
   stringify (sigsAt (store st) (sigsRef e)) \<noteq> stringify (sigsAt (store st) (signaturesR st)) \<Longrightarrow>
   pastR (commitR stringify st) = pastR st @ [e]"
  by (simp_all add: snapshotStartR_def commitR_def Let_def split: option.splits)

end
